theory Spec2Isabelle
  imports Main
begin

section \<open>Strings and plain objects of the runtime\<close>

text \<open>
  A string is modelled as a \<open>char list\<close> holding its UTF-8 bytes, and every string of the
  program is taken to be well-formed UTF-8 (a file is read as UTF-8). The separators the
  program splits on (newline, \<open>=\<close>), the comment mark \<open>#\<close> and the quote characters are
  ASCII, so splitting bytes is splitting the text.
\<close>

fun is_prefix :: "string \<Rightarrow> string \<Rightarrow> bool" where
  "is_prefix [] s = True"
| "is_prefix (p # ps) [] = False"
| "is_prefix (p # ps) (x # xs) = (p = x \<and> is_prefix ps xs)"

text \<open>
  What \<open>String.prototype.trim\<close> strips, as UTF-8: the white space code points U+0009,
  U+000B, U+000C, U+0020, U+00A0, U+1680, U+2000 to U+200A, U+202F, U+205F, U+3000,
  U+FEFF and the line terminators U+000A, U+000D, U+2028, U+2029.
\<close>

definition white_space :: "string list" where
  "white_space =
     [[CHR 0x09], [CHR 0x0A], [CHR 0x0B], [CHR 0x0C], [CHR 0x0D], [CHR 0x20],
      [CHR 0xC2, CHR 0xA0], [CHR 0xE1, CHR 0x9A, CHR 0x80],
      [CHR 0xE2, CHR 0x80, CHR 0x80], [CHR 0xE2, CHR 0x80, CHR 0x81],
      [CHR 0xE2, CHR 0x80, CHR 0x82], [CHR 0xE2, CHR 0x80, CHR 0x83],
      [CHR 0xE2, CHR 0x80, CHR 0x84], [CHR 0xE2, CHR 0x80, CHR 0x85],
      [CHR 0xE2, CHR 0x80, CHR 0x86], [CHR 0xE2, CHR 0x80, CHR 0x87],
      [CHR 0xE2, CHR 0x80, CHR 0x88], [CHR 0xE2, CHR 0x80, CHR 0x89],
      [CHR 0xE2, CHR 0x80, CHR 0x8A], [CHR 0xE2, CHR 0x80, CHR 0xA8],
      [CHR 0xE2, CHR 0x80, CHR 0xA9], [CHR 0xE2, CHR 0x80, CHR 0xAF],
      [CHR 0xE2, CHR 0x81, CHR 0x9F], [CHR 0xE3, CHR 0x80, CHR 0x80],
      [CHR 0xEF, CHR 0xBB, CHR 0xBF]]"

text \<open>Whether the string starts with one of the given byte sequences.\<close>

definition starts_with_any :: "string list \<Rightarrow> string \<Rightarrow> bool" where
  "starts_with_any ws s = list_ex (\<lambda>w. w \<noteq> [] \<and> is_prefix w s) ws"

text \<open>The string without its longest prefix made of the given byte sequences.\<close>

function strip_leading :: "string list \<Rightarrow> string \<Rightarrow> string" where
  "strip_leading ws s =
     (case find (\<lambda>w. w \<noteq> [] \<and> is_prefix w s) ws of
        None \<Rightarrow> s
      | Some w \<Rightarrow> strip_leading ws (drop (length w) s))"
  by pat_completeness auto
termination
proof (relation "measure (\<lambda>(ws, s). length s)")
  show "wf (measure (\<lambda>(ws, s). length s))" by simp
next
  fix ws s w
  assume "find (\<lambda>w. w \<noteq> [] \<and> is_prefix w s) ws = Some w"
  then have "w \<noteq> [] \<and> is_prefix w s" by (auto simp: find_Some_iff)
  then have "s \<noteq> []" "0 < length w" by (cases w; cases s; simp)+
  then show "((ws, drop (length w) s), (ws, s)) \<in> measure (\<lambda>(ws, s). length s)" by simp
qed

declare strip_leading.simps [simp del]

text \<open>\<open>s.trim()\<close>: white space is stripped from the start, then from the end.\<close>

definition trim :: "string \<Rightarrow> string" where
  "trim s = rev (strip_leading (map rev white_space) (rev (strip_leading white_space s)))"

definition space_at_start :: "string \<Rightarrow> bool" where
  "space_at_start s = starts_with_any white_space s"

definition space_at_end :: "string \<Rightarrow> bool" where
  "space_at_end s = starts_with_any (map rev white_space) (rev s)"

text \<open>\<open>s.split(c)\<close> for a one-character separator: never empty, \<open>''''.split(c) = ['''']\<close>.\<close>

fun split_on :: "char \<Rightarrow> string \<Rightarrow> string list" where
  "split_on c [] = [[]]"
| "split_on c (x # xs) =
     (if x = c then [] # split_on c xs
      else (x # hd (split_on c xs)) # tl (split_on c xs))"

text \<open>\<open>parts.join(sep)\<close>.\<close>

fun join :: "string \<Rightarrow> string list \<Rightarrow> string" where
  "join sep [] = []"
| "join sep [x] = x"
| "join sep (x # y # ys) = x @ sep @ join sep (y # ys)"

definition startsWith :: "string \<Rightarrow> char \<Rightarrow> bool" where
  "startsWith s c = (case s of [] \<Rightarrow> False | x # _ \<Rightarrow> x = c)"

definition is_quote :: "char \<Rightarrow> bool" where
  "is_quote c = (c = CHR 0x27 \<or> c = CHR 0x22)"

text \<open>
  \<open>value.replace(/^['"]|['"]$/g, '')\<close>: one quote character is removed at the start if
  there is one, and one at the end of what is left if there is one; the two need not be
  the same character.
\<close>

definition strip_quotes :: "string \<Rightarrow> string" where
  "strip_quotes v =
     (let v1 = (case v of [] \<Rightarrow> [] | c # r \<Rightarrow> if is_quote c then r else v)
      in if v1 \<noteq> [] \<and> is_quote (last v1) then butlast v1 else v1)"

text \<open>
  A \<open>Record<string, string>\<close> built from the literal \<open>{}\<close>: its own properties in
  insertion order, each key once. The object inherits from \<open>Object.prototype\<close>, which
  matters for the \<open>in\<close> operator and for reading a property that is not its own.
\<close>

type_synonym js_object = "(string \<times> string) list"

definition object_prototype_keys :: "string list" where
  "object_prototype_keys =
     [''constructor'', ''hasOwnProperty'', ''isPrototypeOf'', ''propertyIsEnumerable'',
      ''toLocaleString'', ''toString'', ''valueOf'', ''__proto__'',
      ''__defineGetter__'', ''__defineSetter__'', ''__lookupGetter__'', ''__lookupSetter__'']"

text \<open>
  \<open>obj[key] = value\<close> with a string value: an existing own property keeps its place, a
  new one goes last. Assigning a string to \<open>__proto__\<close> calls the inherited setter, which
  ignores a value that is not an object: no property is created.
\<close>

fun put_own :: "string \<Rightarrow> string \<Rightarrow> js_object \<Rightarrow> js_object" where
  "put_own k v [] = [(k, v)]"
| "put_own k v (p # ps) = (if fst p = k then (k, v) # ps else p # put_own k v ps)"

definition obj_set :: "js_object \<Rightarrow> string \<Rightarrow> string \<Rightarrow> js_object" where
  "obj_set obj k v = (if k = ''__proto__'' then obj else put_own k v obj)"

text \<open>\<open>key in obj\<close>: own or inherited.\<close>

definition has_property :: "js_object \<Rightarrow> string \<Rightarrow> bool" where
  "has_property obj k = (k \<in> fst ` set obj \<or> k \<in> set object_prototype_keys)"

text \<open>
  \<open>obj[key]\<close>: the own string, else what \<open>Object.prototype\<close> holds under that name (a
  function or an object, never a string), else \<open>undefined\<close>.
\<close>

datatype js_value = Str string | Inherited string | Undefined

definition get_property :: "js_object \<Rightarrow> string \<Rightarrow> js_value" where
  "get_property obj k =
     (case map_of obj k of
        Some v \<Rightarrow> Str v
      | None \<Rightarrow> if k \<in> set object_prototype_keys then Inherited k else Undefined)"

text \<open>
  \<open>Object.entries(obj)\<close> and \<open>Object.keys(obj)\<close>: keys that are array indices (canonical
  decimal numerals below \<open>2^32 - 1\<close>) come first in ascending numeric order, the other
  keys follow in insertion order.
\<close>

definition is_digit :: "char \<Rightarrow> bool" where
  "is_digit c = (48 \<le> (of_char c :: int) \<and> (of_char c :: int) \<le> 57)"

definition dec_value :: "string \<Rightarrow> int" where
  "dec_value s = foldl (\<lambda>n c. 10 * n + (of_char c - 48)) 0 s"

definition is_array_index :: "string \<Rightarrow> bool" where
  "is_array_index k =
     (k \<noteq> [] \<and> list_all is_digit k \<and> (k = ''0'' \<or> hd k \<noteq> CHR ''0'')
      \<and> dec_value k < 4294967295)"

definition own_entries :: "js_object \<Rightarrow> (string \<times> string) list" where
  "own_entries obj =
     sort_key (\<lambda>p. dec_value (fst p)) (filter (\<lambda>p. is_array_index (fst p)) obj)
     @ filter (\<lambda>p. \<not> is_array_index (fst p)) obj"

definition own_keys :: "js_object \<Rightarrow> string list" where
  "own_keys obj = map fst (own_entries obj)"

section \<open>The change detector's diff (core/file-watcher)\<close>

text \<open>\<open>FileWatcher.parseEnvContent\<close>: the body of the \<open>forEach\<close> is \<open>content_line\<close>.\<close>

definition content_line :: "js_object \<Rightarrow> string \<Rightarrow> js_object" where
  "content_line vars line =
     (let trimmed = trim line in
      if trimmed \<noteq> [] \<and> \<not> startsWith trimmed (CHR ''#'') then
        (let parts = split_on (CHR ''='') trimmed; key = hd parts; valueParts = tl parts in
         if key \<noteq> [] then obj_set vars (trim key) (trim (join ''='' valueParts)) else vars)
      else vars)"

definition parseEnvContent :: "string \<Rightarrow> js_object" where
  "parseEnvContent content = foldl content_line [] (split_on (CHR 0x0A) content)"

datatype change_type = Type_added | Type_modified | Type_removed

text \<open>\<open>EnvChangeInfo\<close> without its timestamp.\<close>

record EnvChangeInfo =
  ctype :: change_type
  added :: "string list"
  modified :: "string list"
  removed :: "string list"

text \<open>
  \<open>FileWatcher.calculateChanges\<close>. The first loop pushes a key of the new variables to
  \<open>added\<close> when \<open>!(key in oldVars)\<close> and otherwise to \<open>modified\<close> when
  \<open>oldVars[key] !== value\<close>; the second pushes a key of the old variables to \<open>removed\<close>
  when \<open>!(key in newVars)\<close>.
\<close>

definition calculateChanges :: "string \<Rightarrow> string \<Rightarrow> EnvChangeInfo" where
  "calculateChanges oldContent newContent =
     (let oldVars = parseEnvContent oldContent;
          newVars = parseEnvContent newContent;
          added = map fst (filter (\<lambda>(key, value). \<not> has_property oldVars key)
                    (own_entries newVars));
          modified = map fst (filter (\<lambda>(key, value). has_property oldVars key
                        \<and> get_property oldVars key \<noteq> Str value) (own_entries newVars));
          removed = filter (\<lambda>key. \<not> has_property newVars key) (own_keys oldVars)
      in \<lparr> ctype = (if added \<noteq> [] \<or> removed \<noteq> [] then Type_modified else Type_added),
           added = added, modified = modified, removed = removed \<rparr>)"

definition has_changes :: "EnvChangeInfo \<Rightarrow> bool" where
  "has_changes ch = (added ch \<noteq> [] \<or> modified ch \<noteq> [] \<or> removed ch \<noteq> [])"

section \<open>The local file and the env-parser (utils/env-parser)\<close>

text \<open>
  The local file as the program sees it: absent, present but failing every access (a
  permission error), or present with a content. \<open>readFileSync\<close> throws unless there is a
  content. \<open>writeFileSync\<close> creates or replaces the content, and throws on a file it may
  not access and whenever the platform does not let the program write at the path (a
  file that can be read and not written, a directory in which no file can be created, a
  full device): \<open>writable\<close> says whether it does.
\<close>

datatype local_file = Absent | Locked | File string

datatype error = FileIOError | DecryptionError | Failed_to_decrypt_variable string
  | TransportError

definition readFileSync :: "local_file \<Rightarrow> error + string" where
  "readFileSync f = (case f of File c \<Rightarrow> Inr c | _ \<Rightarrow> Inl FileIOError)"

definition existsSync :: "local_file \<Rightarrow> bool" where
  "existsSync f = (f \<noteq> Absent)"

definition writeFileSync :: "bool \<Rightarrow> local_file \<Rightarrow> string \<Rightarrow> error + local_file" where
  "writeFileSync writable f c =
     (if writable \<and> f \<noteq> Locked then Inr (File c) else Inl FileIOError)"

text \<open>
  The body of the \<open>forEach\<close> of \<open>parseEnvFile\<close>. Unlike the detector's parser it asks for
  an \<open>=\<close> on the line and strips quotes from the value.
\<close>

definition env_line :: "js_object \<Rightarrow> string \<Rightarrow> js_object" where
  "env_line vars line =
     (let trimmed = trim line in
      if trimmed = [] \<or> startsWith trimmed (CHR ''#'') then vars
      else
        (let parts = split_on (CHR ''='') trimmed; key = hd parts; valueParts = tl parts in
         if key \<noteq> [] \<and> length valueParts > 0
         then obj_set vars (trim key) (strip_quotes (trim (join ''='' valueParts)))
         else vars))"

definition parse_env_text :: "string \<Rightarrow> js_object" where
  "parse_env_text content = foldl env_line [] (split_on (CHR 0x0A) content)"

definition parseEnvFile :: "local_file \<Rightarrow> error + js_object" where
  "parseEnvFile f =
     (if \<not> existsSync f then Inr []
      else case readFileSync f of Inl e \<Rightarrow> Inl e | Inr content \<Rightarrow> Inr (parse_env_text content))"

text \<open>
  The text \<open>writeEnvFile\<close> writes, which is also the text \<open>performPull\<close> writes:
  \<open>Object.entries(vars).map(([key, value]) => `${key}=${value}`).join('\n') + '\n'\<close>.
  (\<open>writeEnvFile\<close> first creates the directory of the path if it is missing; a failure
  to do so is a path that is not writable.)
\<close>

definition env_text :: "js_object \<Rightarrow> string" where
  "env_text vars = join [CHR 0x0A] (map (\<lambda>(key, value). key @ ''='' @ value) (own_entries vars))
     @ [CHR 0x0A]"

definition writeEnvFile :: "bool \<Rightarrow> local_file \<Rightarrow> js_object \<Rightarrow> error + local_file" where
  "writeEnvFile writable f vars = writeFileSync writable f (env_text vars)"

section \<open>Encryption (core/encryption)\<close>

text \<open>
  A buffer is a list of bytes. \<open>buf.toString('hex')\<close> writes two lower-case digits a
  byte; \<open>Buffer.from(s, 'hex')\<close> reads pairs of hexadecimal digits and stops at the first
  pair that is not one.
\<close>

type_synonym buffer = "char list"

definition hex_digit :: "int \<Rightarrow> char" where
  "hex_digit n = (if n < 10 then char_of (48 + n) else char_of (87 + n))"

definition hex_value :: "char \<Rightarrow> int option" where
  "hex_value c =
     (let n = (of_char c :: int) in
      if 48 \<le> n \<and> n \<le> 57 then Some (n - 48)
      else if 97 \<le> n \<and> n \<le> 102 then Some (n - 87)
      else if 65 \<le> n \<and> n \<le> 70 then Some (n - 55)
      else None)"

definition to_hex :: "buffer \<Rightarrow> string" where
  "to_hex b = concat (map (\<lambda>c. [hex_digit ((of_char c :: int) div 16),
                                  hex_digit ((of_char c :: int) mod 16)]) b)"

fun from_hex :: "string \<Rightarrow> buffer" where
  "from_hex (h # l # rest) =
     (case (hex_value h, hex_value l) of
        (Some a, Some b) \<Rightarrow> char_of (16 * a + b) # from_hex rest
      | _ \<Rightarrow> [])"
| "from_hex _ = []"

text \<open>
  \<open>decipher.update(s, 'hex', 'utf8')\<close> is stricter than \<open>Buffer.from\<close> in one respect: it
  throws for a string with an odd number of characters, before any decoding; a string
  of even length is decoded as \<open>Buffer.from\<close> decodes it. The characters are counted as
  \<open>s.length\<close> counts them, in UTF-16 code units: in the UTF-8 form a byte that starts a
  character stands for one unit, for two if the character lies outside the basic plane,
  and a continuation byte for none.
\<close>

definition code_units :: "char \<Rightarrow> int" where
  "code_units c =
     (let n = (of_char c :: int) in
      if n < 128 then 1 else if n < 192 then 0 else if n < 240 then 1 else 2)"

definition js_length :: "string \<Rightarrow> int" where
  "js_length s = sum_list (map code_units s)"

definition hex_input :: "string \<Rightarrow> buffer option" where
  "hex_input s = (if even (js_length s) then Some (from_hex s) else None)"

text \<open>
  The platform's \<open>crypto\<close> module is not code of the repository; the functions the
  program calls are parameters of the model. \<open>sha256\<close> is the hash behind \<open>deriveKey\<close>;
  \<open>gcm_encrypt key iv plain\<close> is \<open>createCipheriv('aes-256-gcm', key, iv)\<close> followed by
  \<open>update\<close>, \<open>final\<close> and \<open>getAuthTag\<close>, giving the ciphertext and the tag;
  \<open>gcm_decrypt key iv tag cipher\<close> is \<open>createDecipheriv\<close>, \<open>setAuthTag\<close>, \<open>update\<close> and
  \<open>final\<close>, and is \<open>None\<close> when any of them throws (a tag that does not verify, an
  initialisation vector or a tag of a length the module refuses). Which tags verify is
  the module's matter and nothing is assumed about it: the program sets no tag length,
  and the module then also takes a tag cut down to one of the shorter lengths it allows.
\<close>

record crypto =
  sha256 :: "string \<Rightarrow> buffer"
  gcm_encrypt :: "buffer \<Rightarrow> buffer \<Rightarrow> buffer \<Rightarrow> buffer \<times> buffer"
  gcm_decrypt :: "buffer \<Rightarrow> buffer \<Rightarrow> buffer \<Rightarrow> buffer \<Rightarrow> buffer option"

text \<open>
  What the program relies on: under one key and one initialisation vector, decrypting a
  ciphertext with the tag its encryption produced gives the plaintext back.
\<close>

definition gcm_inverts :: "crypto \<Rightarrow> bool" where
  "gcm_inverts c =
     (\<forall>key iv plain. gcm_decrypt c key iv (snd (gcm_encrypt c key iv plain))
                        (fst (gcm_encrypt c key iv plain)) = Some plain)"

text \<open>
  A string is its UTF-8 bytes here, so writing it into a buffer as \<open>'utf8'\<close> and reading a
  buffer as \<open>'utf8'\<close> keep the bytes. This is what the runtime does on the bytes of a
  string; a string with an unpaired surrogate has no UTF-8 form and is not a string of
  this model (the values the program encrypts are read from a file as UTF-8 and have
  none). On bytes that are not the UTF-8 form of any string the runtime reads U+FFFD in
  their place and \<open>utf8_string\<close> does not: what the model returns for such a plaintext
  is not what the program returns. Whether \<open>decryptValue\<close> throws does not depend on it, and
  nothing below is stated about the value returned for a plaintext that no encryption of
  a string has produced.
\<close>

definition utf8_bytes :: "string \<Rightarrow> buffer" where
  "utf8_bytes s = s"

definition utf8_string :: "buffer \<Rightarrow> string" where
  "utf8_string b = b"

record EncryptedValue =
  encryptedValue :: string
  iv :: string
  authTag :: string

record EncryptedVariable = EncryptedValue +
  key :: string
  isSecret :: bool

text \<open>\<open>EncryptionManager.deriveKey\<close>; \<open>derivationKey\<close> is the project name.\<close>

definition deriveKey :: "crypto \<Rightarrow> string \<Rightarrow> buffer" where
  "deriveKey c derivationKey = sha256 c derivationKey"

text \<open>
  \<open>EncryptionManager.encryptValue\<close>. The sixteen bytes of \<open>crypto.randomBytes(16)\<close> are
  the argument \<open>ivBytes\<close>.
\<close>

definition encryptValue :: "crypto \<Rightarrow> string \<Rightarrow> buffer \<Rightarrow> string \<Rightarrow> EncryptedValue" where
  "encryptValue c derivationKey ivBytes val =
     (let k = deriveKey c derivationKey;
          (cipher, tag) = gcm_encrypt c k ivBytes (utf8_bytes val)
      in \<lparr> encryptedValue = to_hex cipher, iv = to_hex ivBytes, authTag = to_hex tag \<rparr>)"

text \<open>
  \<open>EncryptionManager.decryptValue\<close>: whatever the module throws is thrown on. The
  initialisation vector and the tag go through \<open>Buffer.from(s, 'hex')\<close>, the ciphertext
  through \<open>decipher.update(s, 'hex', 'utf8')\<close>.
\<close>

definition decryptValue :: "crypto \<Rightarrow> string \<Rightarrow> string \<Rightarrow> string \<Rightarrow> string \<Rightarrow> error + string" where
  "decryptValue c derivationKey encrypted ivHex authTagHex =
     (let k = deriveKey c derivationKey;
          ivBuffer = from_hex ivHex;
          authTagBuffer = from_hex authTagHex
      in case hex_input encrypted of
           None \<Rightarrow> Inl DecryptionError
         | Some cipher \<Rightarrow>
             (case gcm_decrypt c k ivBuffer authTagBuffer cipher of
                None \<Rightarrow> Inl DecryptionError
              | Some plain \<Rightarrow> Inr (utf8_string plain)))"

definition secretPatterns :: "string list" where
  "secretPatterns = [''secret'', ''password'', ''token'', ''key'', ''api_key'', ''access_key'',
     ''private_key'', ''auth'', ''credential'', ''apikey'']"

text \<open>\<open>s.toLowerCase()\<close> on the ASCII letters and \<open>s.includes(pattern)\<close>.\<close>

definition toLowerCase :: "string \<Rightarrow> string" where
  "toLowerCase s =
     map (\<lambda>c. if 65 \<le> (of_char c :: int) \<and> (of_char c :: int) \<le> 90
                then char_of ((of_char c :: int) + 32) else c) s"

fun includes_str :: "string \<Rightarrow> string \<Rightarrow> bool" where
  "includes_str [] pat = (pat = [])"
| "includes_str (x # xs) pat = (is_prefix pat (x # xs) \<or> includes_str xs pat)"

definition looksLikeSecret :: "string \<Rightarrow> string \<Rightarrow> bool" where
  "looksLikeSecret k v =
     list_ex (\<lambda>pat. includes_str (toLowerCase k) pat \<or> includes_str (toLowerCase v) pat) secretPatterns"

text \<open>
  \<open>EncryptionManager.encryptVariables\<close>: one record per own property, in enumeration
  order; \<open>random n\<close> is the initialisation vector drawn for the \<open>n\<close>-th of them.
\<close>

definition encryptVariables ::
  "crypto \<Rightarrow> string \<Rightarrow> (nat \<Rightarrow> buffer) \<Rightarrow> js_object \<Rightarrow> EncryptedVariable list" where
  "encryptVariables c derivationKey random vars =
     map (\<lambda>(n, (k, v)).
            EncryptedValue.extend (encryptValue c derivationKey (random n) v)
              (EncryptedVariable.fields k (looksLikeSecret k v)))
         (enumerate 0 (own_entries vars))"

text \<open>
  \<open>EncryptionManager.decryptVariables\<close>: the \<open>forEach\<close> stops at the first record whose
  decryption throws, and throws \<open>Failed to decrypt variable <key>\<close>.
\<close>

fun decrypt_each :: "crypto \<Rightarrow> string \<Rightarrow> js_object \<Rightarrow> EncryptedVariable list \<Rightarrow> error + js_object" where
  "decrypt_each c derivationKey vars [] = Inr vars"
| "decrypt_each c derivationKey vars (item # rest) =
     (case decryptValue c derivationKey (encryptedValue item) (iv item) (authTag item) of
        Inl e \<Rightarrow> Inl (Failed_to_decrypt_variable (key item))
      | Inr v \<Rightarrow> decrypt_each c derivationKey (obj_set vars (key item) v) rest)"

definition decryptVariables :: "crypto \<Rightarrow> string \<Rightarrow> EncryptedVariable list \<Rightarrow> error + js_object" where
  "decryptVariables c derivationKey encrypted = decrypt_each c derivationKey [] encrypted"

section \<open>Pulling and polling (commands/sync)\<close>

text \<open>
  What \<open>apiClient.pullVariables\<close> resolves to, without its message; a rejected promise
  is \<open>Inl TransportError\<close>. \<open>data\<close> is \<open>None\<close> when the field is missing.
\<close>

record api_response =
  success :: bool
  data :: "EncryptedVariable list option"

datatype pull_result = No_remote_changes_found | No_changes_detected | Pulled nat

text \<open>
  The test of \<open>performPull\<close>:
  \<open>Object.keys(remoteVars).some(key => !(key in localVars) || localVars[key] !== remoteVars[key])\<close>.
\<close>

definition hasChanges :: "js_object \<Rightarrow> js_object \<Rightarrow> bool" where
  "hasChanges localVars remoteVars =
     list_ex (\<lambda>k. \<not> has_property localVars k
                  \<or> get_property localVars k \<noteq> get_property remoteVars k)
       (own_keys remoteVars)"

text \<open>
  \<open>performPull\<close>: the result (an error when it throws) and the local file afterwards.
  \<open>projectName\<close> is \<open>configManager.loadProject()!.projectName\<close>, \<open>answer\<close> what its call
  of \<open>pullVariables\<close> gives, and \<open>writable\<close> whether the platform lets it write the file.
\<close>

definition performPull ::
  "crypto \<Rightarrow> string \<Rightarrow> error + api_response \<Rightarrow> bool \<Rightarrow> local_file
     \<Rightarrow> (error + pull_result) \<times> local_file" where
  "performPull c projectName answer writable f =
     (case answer of
        Inl e \<Rightarrow> (Inl e, f)
      | Inr response \<Rightarrow>
          (case data response of
             None \<Rightarrow> (Inr No_remote_changes_found, f)
           | Some records \<Rightarrow>
               if \<not> success response then (Inr No_remote_changes_found, f)
               else
                 (case decryptVariables c projectName records of
                    Inl e \<Rightarrow> (Inl e, f)
                  | Inr remoteVars \<Rightarrow>
                      (case parseEnvFile f of
                         Inl e \<Rightarrow> (Inl e, f)
                       | Inr localVars \<Rightarrow>
                           if \<not> hasChanges localVars remoteVars
                           then (Inr No_changes_detected, f)
                           else
                             (case writeFileSync writable f (env_text remoteVars) of
                                Inl e \<Rightarrow> (Inl e, f)
                              | Inr f' \<Rightarrow> (Inr (Pulled (length (own_keys remoteVars))), f'))))))"

text \<open>
  The test of \<open>checkRemoteChanges\<close>:
  \<open>Object.entries(remoteVars).some(([key, value]) => !(key in localVars) || localVars[key] !== value)\<close>.
\<close>

definition hasNewOrChanged :: "js_object \<Rightarrow> js_object \<Rightarrow> bool" where
  "hasNewOrChanged localVars remoteVars =
     list_ex (\<lambda>(k, v). \<not> has_property localVars k \<or> get_property localVars k \<noteq> Str v)
       (own_entries remoteVars)"

text \<open>
  \<open>checkRemoteChanges\<close>, one poll tick: \<open>answer\<close> is what its own call of
  \<open>pullVariables\<close> gives, \<open>answer'\<close> what the call inside \<open>performPull\<close> gives; the remote
  side may have changed in between, and the second call may fail where the first did
  not. Every error is caught and logged; the result is the local file afterwards.
\<close>

definition checkRemoteChanges ::
  "crypto \<Rightarrow> string \<Rightarrow> error + api_response \<Rightarrow> error + api_response \<Rightarrow> bool \<Rightarrow> local_file
     \<Rightarrow> local_file" where
  "checkRemoteChanges c projectName answer answer' writable f =
     (case answer of
        Inl e \<Rightarrow> f
      | Inr response \<Rightarrow>
          (case data response of
             None \<Rightarrow> f
           | Some records \<Rightarrow>
               if \<not> success response then f
               else
                 (case decryptVariables c projectName records of
                    Inl e \<Rightarrow> f
                  | Inr remoteVars \<Rightarrow>
                      (case parseEnvFile f of
                         Inl e \<Rightarrow> f
                       | Inr localVars \<Rightarrow>
                           if hasNewOrChanged localVars remoteVars
                           then snd (performPull c projectName answer' writable f)
                           else f))))"

section \<open>The file watcher (core/file-watcher)\<close>

text \<open>
  The state of a \<open>FileWatcher\<close>: whether it holds a chokidar watcher, the time at which
  its pending debounce timer fires (\<open>None\<close> when no timer is pending: after \<open>clearTimeout\<close>,
  and after the timer has fired, when the handle left in the field is inert), and the
  Baseline \<open>lastContent\<close>. Times are in milliseconds.
\<close>

record FileWatcher =
  watcher :: bool
  debounceTimer :: "nat option"
  lastContent :: string

datatype event = Started | Stopped | Env_changed EnvChangeInfo | Error_event error

definition debounceDelay :: nat where
  "debounceDelay = 2000"

definition new_FileWatcher :: FileWatcher where
  "new_FileWatcher = \<lparr> watcher = False, debounceTimer = None, lastContent = [] \<rparr>"

definition stop :: "FileWatcher \<Rightarrow> FileWatcher \<times> event list" where
  "stop w = (w\<lparr> watcher := False, debounceTimer := None \<rparr>,
             if watcher w then [Stopped] else [])"

definition watch :: "local_file \<Rightarrow> FileWatcher \<Rightarrow> FileWatcher \<times> event list" where
  "watch f w =
     (let (w1, evs) = (if watcher w then stop w else (w, []));
          w2 = w1\<lparr> lastContent := (case readFileSync f of Inr c \<Rightarrow> c | Inl e \<Rightarrow> []) \<rparr>
      in (w2\<lparr> watcher := True \<rparr>, evs @ [Started]))"

text \<open>\<open>handleFileChange\<close> at time \<open>now\<close>: the pending timer is dropped and a new one set.\<close>

definition handleFileChange :: "nat \<Rightarrow> FileWatcher \<Rightarrow> FileWatcher" where
  "handleFileChange now w = w\<lparr> debounceTimer := Some (now + debounceDelay) \<rparr>"

definition processFileChange :: "local_file \<Rightarrow> FileWatcher \<Rightarrow> FileWatcher \<times> event list" where
  "processFileChange f w =
     (case readFileSync f of
        Inl e \<Rightarrow> (w, [Error_event e])
      | Inr newContent \<Rightarrow>
          (let changes = calculateChanges (lastContent w) newContent in
           if added changes \<noteq> [] \<or> modified changes \<noteq> [] \<or> removed changes \<noteq> []
           then (w\<lparr> lastContent := newContent \<rparr>, [Env_changed changes])
           else (w, [])))"

text \<open>
  The detector in time. Between the callbacks the runtime delivers, the file on disk may
  change and chokidar may report a change; the debounce timer fires once the clock has
  reached its time. \<open>fire_due now\<close> runs the pending timer's callback
  (\<open>processFileChange\<close>) if its time has come; \<open>deliver\<close> handles one stimulus at its
  time, after any timer due before it. The events the watcher emits are appended to
  \<open>emitted\<close>. \<open>disk_writable\<close> says whether the program may write the file; the detector
  only reads it.
\<close>

record detector =
  fw :: FileWatcher
  disk :: local_file
  disk_writable :: bool
  emitted :: "event list"

datatype stimulus = Change_notified | Disk_becomes local_file

definition fire_due :: "nat \<Rightarrow> detector \<Rightarrow> detector" where
  "fire_due now d =
     (case debounceTimer (fw d) of
        None \<Rightarrow> d
      | Some t \<Rightarrow>
          if t \<le> now then
            (let (w, evs) = processFileChange (disk d) ((fw d)\<lparr> debounceTimer := None \<rparr>)
             in d\<lparr> fw := w, emitted := emitted d @ evs \<rparr>)
          else d)"

definition deliver :: "detector \<Rightarrow> nat \<times> stimulus \<Rightarrow> detector" where
  "deliver d ts =
     (let d1 = fire_due (fst ts) d in
      case snd ts of
        Change_notified \<Rightarrow>
          if watcher (fw d1) then d1\<lparr> fw := handleFileChange (fst ts) (fw d1) \<rparr> else d1
      | Disk_becomes f \<Rightarrow> d1\<lparr> disk := f \<rparr>)"

definition run_detector :: "detector \<Rightarrow> (nat \<times> stimulus) list \<Rightarrow> detector" where
  "run_detector d stimuli = foldl deliver d stimuli"

text \<open>
  A burst: every stimulus comes before the timer set by the latest change notification
  would fire. \<open>in_window t now stimuli\<close> holds when the stimuli are in time order from
  \<open>now\<close> on, each earlier than the timer pending since the latest notification (at
  time \<open>t\<close> to begin with); \<open>final_disk\<close> and
  \<open>last_change\<close> are the file and the time of the latest notification at the end.
\<close>

fun in_window :: "nat \<Rightarrow> nat \<Rightarrow> (nat \<times> stimulus) list \<Rightarrow> bool" where
  "in_window t now [] = True"
| "in_window t now ((t', Change_notified) # rest) =
     (now \<le> t' \<and> t' < t + debounceDelay \<and> in_window t' t' rest)"
| "in_window t now ((t', Disk_becomes f) # rest) =
     (now \<le> t' \<and> t' < t + debounceDelay \<and> in_window t t' rest)"

fun final_disk :: "local_file \<Rightarrow> (nat \<times> stimulus) list \<Rightarrow> local_file" where
  "final_disk f [] = f"
| "final_disk f ((t', Change_notified) # rest) = final_disk f rest"
| "final_disk f ((t', Disk_becomes f') # rest) = final_disk f' rest"

fun last_change :: "nat \<Rightarrow> (nat \<times> stimulus) list \<Rightarrow> nat" where
  "last_change t [] = t"
| "last_change t ((t', Change_notified) # rest) = last_change t' rest"
| "last_change t ((t', Disk_becomes f) # rest) = last_change t rest"

section \<open>Watch mode (commands/sync)\<close>

text \<open>
  \<open>performPush\<close> up to its \<open>await\<close>: the request body it hands to
  \<open>apiClient.pushVariables\<close>, or the error thrown before any request is made.
\<close>

definition push_request ::
  "crypto \<Rightarrow> string \<Rightarrow> (nat \<Rightarrow> buffer) \<Rightarrow> local_file \<Rightarrow> error + EncryptedVariable list" where
  "push_request c projectName random f =
     (case parseEnvFile f of
        Inl e \<Rightarrow> Inl e
      | Inr variables \<Rightarrow> Inr (encryptVariables c projectName random variables))"

text \<open>
  A watch-mode session between callbacks: its two flags, the bodies of the push requests
  that have been sent and not yet answered, and the number of remote checks that have
  been started by the poll timer and have not yet finished. The callbacks are those
  \<open>startWatchMode\<close> registers: the \<open>env-changed\<close> listener calls \<open>performPush\<close> unless the
  session is pull-only; the interval callback, installed unless the session is
  push-only, calls \<open>checkRemoteChanges\<close>. Both are \<open>async\<close>: they return to the event loop
  at their first \<open>await\<close>, the network call, and are resumed when it settles. An answer
  settles the oldest request; the runtime delivers none when nothing is in flight, and
  the step then leaves the session as it is.

  The model stops short of a push that fails. \<open>performPush\<close> throws again what it
  catches (a file that cannot be read, a request that is rejected or answered without
  success), the \<open>async\<close> listener's promise is then rejected, and nothing in
  \<open>startWatchMode\<close> handles the rejection, which by default ends the process. Here a
  push that cannot be prepared leaves the session as it is and \<open>Push_settled\<close> stands for
  an answer of either kind; what is proved below is about sessions in which every
  file can be read, and about the requests in flight, not about how they end.
\<close>

record session =
  pushOnly :: bool
  pullOnly :: bool
  pushes_in_flight :: "EncryptedVariable list list"
  checks_in_flight :: nat

datatype callback = On_env_changed local_file | Push_settled | Poll_tick | Check_finished

definition session_step ::
  "crypto \<Rightarrow> string \<Rightarrow> (nat \<Rightarrow> buffer) \<Rightarrow> session \<Rightarrow> callback \<Rightarrow> session" where
  "session_step c projectName random s cb =
     (case cb of
        On_env_changed f \<Rightarrow>
          if pullOnly s then s
          else (case push_request c projectName random f of
                  Inl e \<Rightarrow> s
                | Inr body \<Rightarrow> s\<lparr> pushes_in_flight := pushes_in_flight s @ [body] \<rparr>)
      | Push_settled \<Rightarrow> s\<lparr> pushes_in_flight := tl (pushes_in_flight s) \<rparr>
      | Poll_tick \<Rightarrow>
          if pushOnly s then s else s\<lparr> checks_in_flight := Suc (checks_in_flight s) \<rparr>
      | Check_finished \<Rightarrow> s\<lparr> checks_in_flight := checks_in_flight s - 1 \<rparr>)"

definition run_session ::
  "crypto \<Rightarrow> string \<Rightarrow> (nat \<Rightarrow> buffer) \<Rightarrow> session \<Rightarrow> callback list \<Rightarrow> session" where
  "run_session c projectName random s cbs = foldl (session_step c projectName random) s cbs"

definition new_session :: "bool \<Rightarrow> bool \<Rightarrow> session" where
  "new_session push_only pull_only =
     \<lparr> pushOnly = push_only, pullOnly = pull_only, pushes_in_flight = [], checks_in_flight = 0 \<rparr>"

section \<open>An instance of the platform interface\<close>

text \<open>
  To run the model on concrete inputs the parameters need values. This instance is not
  a cipher anyone should use: the ciphertext is the plaintext reversed and the tag is
  the key, the initialisation vector and the plaintext in a row. It decrypts what it
  encrypts (\<open>gcm_inverts\<close>) and rejects every other tag.
\<close>

definition mirror_crypto :: crypto where
  "mirror_crypto =
     \<lparr> sha256 = (\<lambda>s. s),
       gcm_encrypt = (\<lambda>k ivb plain. (rev plain, k @ ivb @ plain)),
       gcm_decrypt = (\<lambda>k ivb tag cipher.
                        if tag = k @ ivb @ rev cipher then Some (rev cipher) else None) \<rparr>"

text \<open>The call \<open>decryptVariables\<close> makes for one record.\<close>

definition decrypt_item :: "crypto \<Rightarrow> string \<Rightarrow> EncryptedVariable \<Rightarrow> error + string" where
  "decrypt_item c projectName item =
     decryptValue c projectName (encryptedValue item) (iv item) (authTag item)"

text \<open>
  A record as \<open>encryptVariables\<close> builds it under the instance above, for a key and a
  value that do not look like a secret.
\<close>

definition sample_record :: "string \<Rightarrow> string \<Rightarrow> EncryptedVariable" where
  "sample_record k v =
     EncryptedValue.extend (encryptValue mirror_crypto ''p'' ''0123456789abcdef'' v)
       (EncryptedVariable.fields k False)"

text \<open>
  Watch mode runs the detector and the poll timer side by side, and the local file is
  all they share: the interval callback is given the environment and the path, and
  neither \<open>checkRemoteChanges\<close> nor \<open>performPull\<close> can reach the \<open>FileWatcher\<close>. A poll
  tick therefore changes the disk of a \<open>detector\<close> and nothing else.
\<close>

definition poll_tick ::
  "crypto \<Rightarrow> string \<Rightarrow> error + api_response \<Rightarrow> error + api_response \<Rightarrow> detector \<Rightarrow> detector" where
  "poll_tick c projectName answer answer' d =
     d\<lparr> disk := checkRemoteChanges c projectName answer answer' (disk_writable d) (disk d) \<rparr>"

text \<open>
  The detector right after \<open>watch(path)\<close> on a fresh \<open>FileWatcher\<close>, nothing emitted since,
  on a file the program may write.
\<close>

definition started_detector :: "local_file \<Rightarrow> detector" where
  "started_detector f =
     \<lparr> fw = fst (watch f new_FileWatcher), disk = f, disk_writable = True, emitted = [] \<rparr>"

text \<open>A successful answer of \<open>pullVariables\<close> carrying the given variables.\<close>

definition remote_with :: "(string \<times> string) list \<Rightarrow> error + api_response" where
  "remote_with kvs = Inr \<lparr> success = True, data = Some (map (\<lambda>(k, v). sample_record k v) kvs) \<rparr>"

section \<open>Variables that survive the file format\<close>

text \<open>
  \<open>writeEnvFile\<close> writes keys and values as they are, and \<open>parseEnvFile\<close> trims both,
  strips a quote from either end of the value, splits at the first \<open>=\<close> and at every
  newline, and skips lines that start with \<open>#\<close>. A key or a value is plain when none of
  this changes it.
\<close>

definition plain_key :: "string \<Rightarrow> bool" where
  "plain_key k =
     (k \<noteq> [] \<and> \<not> space_at_start k \<and> \<not> space_at_end k
      \<and> CHR ''='' \<notin> set k \<and> CHR 0x0A \<notin> set k \<and> hd k \<noteq> CHR ''#''
      \<and> k \<noteq> ''__proto__'')"

definition plain_value :: "string \<Rightarrow> bool" where
  "plain_value v =
     (CHR 0x0A \<notin> set v \<and> \<not> space_at_start v \<and> \<not> space_at_end v
      \<and> (v = [] \<or> (\<not> is_quote (hd v) \<and> \<not> is_quote (last v))))"

definition plain_vars :: "js_object \<Rightarrow> bool" where
  "plain_vars vars =
     (distinct (map fst vars) \<and> list_all (\<lambda>(k, v). plain_key k \<and> plain_value v) vars)"

section \<open>Trimming\<close>

lemma is_prefix_Nil: "is_prefix w [] \<longleftrightarrow> w = []"
  by (cases w) simp_all

lemma strip_leading_none: "\<not> starts_with_any ws s \<Longrightarrow> strip_leading ws s = s"
proof -
  assume "\<not> starts_with_any ws s"
  then have "find (\<lambda>w. w \<noteq> [] \<and> is_prefix w s) ws = None"
    by (simp add: starts_with_any_def list_ex_iff find_None_iff)
  then show ?thesis by (subst strip_leading.simps) simp
qed

lemma not_starts_Nil: "\<not> starts_with_any ws []"
  by (simp add: starts_with_any_def list_ex_iff is_prefix_Nil)

lemma trim_id: "\<not> space_at_start s \<Longrightarrow> \<not> space_at_end s \<Longrightarrow> trim s = s"
  by (simp add: trim_def space_at_start_def space_at_end_def strip_leading_none)

lemma trim_empty: "trim [] = []"
  by (simp add: trim_def strip_leading_none not_starts_Nil)

lemma is_prefix_sep: "is_prefix w (a @ c # b) \<Longrightarrow> c \<notin> set w \<Longrightarrow> is_prefix w a"
  by (induction w a rule: is_prefix.induct) simp_all

lemma starts_sep:
  assumes "\<forall>w \<in> set ws. c \<notin> set w" and "\<not> starts_with_any ws a"
  shows "\<not> starts_with_any ws (a @ c # b)"
  using assms by (auto simp: starts_with_any_def list_ex_iff dest: is_prefix_sep)

lemma white_space_no_eq: "\<forall>w \<in> set white_space. CHR ''='' \<notin> set w"
  by (simp add: white_space_def)

lemma white_space_rev_no_eq: "\<forall>w \<in> set (map rev white_space). CHR ''='' \<notin> set w"
  using white_space_no_eq by simp

section \<open>Encryption: round trip\<close>

lemma of_char_int_bounds: "0 \<le> (of_char c :: int) \<and> (of_char c :: int) < 256"
proof -
  have "(of_char c :: int) = int (of_char c :: nat)" by (simp add: of_nat_of_char)
  moreover have "(of_char c :: nat) < 256" by (rule nat_of_char_less_256)
  ultimately show ?thesis by simp
qed

lemma of_char_char_of_small:
  "0 \<le> m \<Longrightarrow> m < 256 \<Longrightarrow> (of_char (char_of (m::int)) :: int) = m"
  by simp

lemma hex_value_digit: "0 \<le> n \<Longrightarrow> n < 16 \<Longrightarrow> hex_value (hex_digit n) = Some n"
  by (cases "n < 10")
     (simp_all add: hex_value_def hex_digit_def of_char_char_of_small del: of_char_of)

lemma hex_pair:
  "hex_value (hex_digit ((of_char c :: int) div 16)) = Some ((of_char c :: int) div 16)"
  "hex_value (hex_digit ((of_char c :: int) mod 16)) = Some ((of_char c :: int) mod 16)"
  using of_char_int_bounds [of c] by (auto intro!: hex_value_digit)

lemma from_hex_to_hex_append: "from_hex (to_hex b @ j) = b @ from_hex j"
  by (induction b) (simp_all add: to_hex_def hex_pair)

lemma from_hex_to_hex: "from_hex (to_hex b) = b"
  using from_hex_to_hex_append [of b "[]"] by simp

lemma code_units_hex_digit: "0 \<le> n \<Longrightarrow> n < 16 \<Longrightarrow> code_units (hex_digit n) = 1"
  by (cases "n < 10")
     (simp_all add: code_units_def hex_digit_def of_char_char_of_small del: of_char_of)

lemma code_units_hex_pair:
  "code_units (hex_digit ((of_char c :: int) div 16)) = 1"
  "code_units (hex_digit ((of_char c :: int) mod 16)) = 1"
  using of_char_int_bounds [of c] by (auto intro!: code_units_hex_digit)

lemma js_length_append: "js_length (a @ b) = js_length a + js_length b"
  by (simp add: js_length_def)

lemma js_length_to_hex: "js_length (to_hex b) = 2 * int (length b)"
  by (induction b) (simp_all add: js_length_def to_hex_def code_units_hex_pair)

lemma hex_input_to_hex_append:
  "hex_input (to_hex b @ j) = (if even (js_length j) then Some (b @ from_hex j) else None)"
  by (simp add: hex_input_def js_length_append js_length_to_hex from_hex_to_hex_append)

lemma hex_input_to_hex: "hex_input (to_hex b) = Some b"
  using hex_input_to_hex_append [of b "[]"] by (simp add: js_length_def)

lemma gcm_inverts_mirror: "gcm_inverts mirror_crypto"
  by (simp add: gcm_inverts_def mirror_crypto_def)

text \<open>
  C5. For every string \<open>v\<close>, every project name and every initialisation vector
  drawn, decrypting the three fields \<open>encryptValue\<close> returns for \<open>v\<close> gives \<open>v\<close> back,
  provided the platform's AES-GCM decrypts what it encrypts. The part that is the
  repository's own is the hexadecimal transport of the three fields and the use of the
  same derived key on both sides.
\<close>

theorem encrypt_decrypt_roundtrip:
  assumes "gcm_inverts c"
  shows "decryptValue c projectName
           (encryptedValue (encryptValue c projectName ivBytes v))
           (iv (encryptValue c projectName ivBytes v))
           (authTag (encryptValue c projectName ivBytes v)) = Inr v"
  using assms
  by (simp add: decryptValue_def encryptValue_def Let_def split_beta from_hex_to_hex
      hex_input_to_hex gcm_inverts_def utf8_bytes_def utf8_string_def)

theorem encrypt_decrypt_roundtrip_witness:
  "gcm_inverts mirror_crypto \<and>
   encryptValue mirror_crypto ''p'' ''0123456789abcdef'' ''abc''
     = \<lparr> encryptedValue = ''636261'', iv = ''30313233343536373839616263646566'',
         authTag = ''7030313233343536373839616263646566616263'' \<rparr> \<and>
   decryptValue mirror_crypto ''p'' ''636261'' ''30313233343536373839616263646566''
      ''7030313233343536373839616263646566616263'' = Inr ''abc''"
proof -
  have e: "encryptValue mirror_crypto ''p'' ''0123456789abcdef'' ''abc''
     = \<lparr> encryptedValue = ''636261'', iv = ''30313233343536373839616263646566'',
         authTag = ''7030313233343536373839616263646566616263'' \<rparr>"
    by code_simp
  from encrypt_decrypt_roundtrip [OF gcm_inverts_mirror, of "''p''" "''0123456789abcdef''" "''abc''"]
  show ?thesis unfolding e using gcm_inverts_mirror by simp
qed

section \<open>Decryption: what fails and what does not\<close>




text \<open>
  Fields that \<open>encryptValue\<close> produced still decrypt to the value after anything that
  does not start with two hexadecimal digits has been appended to each of them (an even
  number of characters to the ciphertext), whatever the cipher: the decoding of a field
  stops without complaint where its hexadecimal digits stop.
\<close>

lemma corrupt_fields_decrypt:
  assumes "gcm_inverts c"
    and "from_hex j1 = []" and "even (js_length j1)" and "from_hex j2 = []" and "from_hex j3 = []"
  shows "decryptValue c pn
           (encryptedValue (encryptValue c pn ivBytes v) @ j1)
           (iv (encryptValue c pn ivBytes v) @ j2)
           (authTag (encryptValue c pn ivBytes v) @ j3) = Inr v"
  using assms
  by (simp add: decryptValue_def encryptValue_def Let_def split_beta from_hex_to_hex_append
      hex_input_to_hex_append gcm_inverts_def utf8_bytes_def utf8_string_def)

lemma decrypt_each_Cons:
  "decrypt_each c pn vars (item # rest) =
     (case decrypt_item c pn item of
        Inl e \<Rightarrow> Inl (Failed_to_decrypt_variable (key item))
      | Inr v \<Rightarrow> decrypt_each c pn (obj_set vars (key item) v) rest)"
  by (simp add: decrypt_item_def)





section \<open>Objects and the diff\<close>

lemma put_own_keys: "fst ` set (put_own k v obj) = insert k (fst ` set obj)"
  by (induction obj) auto

lemma put_own_distinct: "distinct (map fst obj) \<Longrightarrow> distinct (map fst (put_own k v obj))"
proof (induction obj)
  case Nil
  show ?case by simp
next
  case (Cons p ps)
  have "fst ` set (put_own k v ps) = insert k (fst ` set ps)" by (rule put_own_keys)
  with Cons show ?case by auto
qed

lemma put_own_map_of: "map_of (put_own k v obj) = (map_of obj)(k \<mapsto> v)"
  by (induction obj) auto

lemma obj_set_distinct: "distinct (map fst obj) \<Longrightarrow> distinct (map fst (obj_set obj k v))"
  by (simp add: obj_set_def put_own_distinct)

lemma content_line_distinct:
  "distinct (map fst vars) \<Longrightarrow> distinct (map fst (content_line vars line))"
  by (simp add: content_line_def Let_def obj_set_distinct)

lemma foldl_content_line_distinct:
  "distinct (map fst vars) \<Longrightarrow> distinct (map fst (foldl content_line vars ls))"
  by (induction ls arbitrary: vars) (simp_all add: content_line_distinct)

lemma parseEnvContent_distinct: "distinct (map fst (parseEnvContent content))"
  by (simp add: parseEnvContent_def foldl_content_line_distinct)

lemma set_own_entries: "set (own_entries obj) = set obj"
  by (auto simp: own_entries_def)

lemma set_own_keys: "set (own_keys obj) = fst ` set obj"
  by (simp add: own_keys_def set_own_entries)

lemma get_property_own:
  "distinct (map fst obj) \<Longrightarrow> (k, v) \<in> set obj \<Longrightarrow> get_property obj k = Str v"
  by (simp add: get_property_def)

lemma has_property_own: "(k, v) \<in> set obj \<Longrightarrow> has_property obj k"
  by (force simp: has_property_def)

lemma calculateChanges_same:
  "calculateChanges content content
     = \<lparr> ctype = Type_added, added = [], modified = [], removed = [] \<rparr>"
proof -
  let ?vars = "parseEnvContent content"
  have d: "distinct (map fst ?vars)" by (rule parseEnvContent_distinct)
  have a: "filter (\<lambda>(k, v). \<not> has_property ?vars k) (own_entries ?vars) = []"
    by (auto simp: filter_empty_conv set_own_entries has_property_own)
  have m: "filter (\<lambda>(k, v). has_property ?vars k \<and> get_property ?vars k \<noteq> Str v)
             (own_entries ?vars) = []"
    using d by (auto simp: filter_empty_conv set_own_entries get_property_own)
  have r: "filter (\<lambda>k. \<not> has_property ?vars k) (own_keys ?vars) = []"
    by (auto simp: filter_empty_conv set_own_keys has_property_own)
  show ?thesis by (simp add: calculateChanges_def Let_def a m r)
qed

lemma calculateChanges_added:
  "set (added (calculateChanges old new)) =
     {k \<in> fst ` set (parseEnvContent new). \<not> has_property (parseEnvContent old) k}"
  by (force simp: calculateChanges_def Let_def set_own_entries)

lemma calculateChanges_removed:
  "set (removed (calculateChanges old new)) =
     {k \<in> fst ` set (parseEnvContent old). \<not> has_property (parseEnvContent new) k}"
  by (auto simp: calculateChanges_def Let_def set_own_keys)

lemma calculateChanges_modified:
  "set (modified (calculateChanges old new)) =
     {k. \<exists>v. (k, v) \<in> set (parseEnvContent new) \<and> has_property (parseEnvContent old) k
            \<and> get_property (parseEnvContent old) k \<noteq> Str v}"
  by (force simp: calculateChanges_def Let_def set_own_entries)

lemma own_key_iff: "k \<in> fst ` set m \<longleftrightarrow> (\<exists>a. map_of m k = Some a)"
  by (simp add: dom_map_of_conv_image_fst [symmetric] domIff)

text \<open>
  For a key that is not the name of a member of \<open>Object.prototype\<close> the three lists are
  what the specification says: added when only the new content has it, removed when
  only the old content has it, modified when both have it with different values.
\<close>

lemma calculateChanges_ordinary_key:
  assumes "k \<notin> set object_prototype_keys"
  shows "k \<in> set (added (calculateChanges old new))
           \<longleftrightarrow> k \<in> fst ` set (parseEnvContent new) \<and> k \<notin> fst ` set (parseEnvContent old)"
    and "k \<in> set (removed (calculateChanges old new))
           \<longleftrightarrow> k \<in> fst ` set (parseEnvContent old) \<and> k \<notin> fst ` set (parseEnvContent new)"
    and "k \<in> set (modified (calculateChanges old new))
           \<longleftrightarrow> (\<exists>v v'. map_of (parseEnvContent new) k = Some v
                 \<and> map_of (parseEnvContent old) k = Some v' \<and> v \<noteq> v')"
proof -
  show "k \<in> set (added (calculateChanges old new))
           \<longleftrightarrow> k \<in> fst ` set (parseEnvContent new) \<and> k \<notin> fst ` set (parseEnvContent old)"
    using assms by (auto simp: calculateChanges_added has_property_def)
  show "k \<in> set (removed (calculateChanges old new))
           \<longleftrightarrow> k \<in> fst ` set (parseEnvContent old) \<and> k \<notin> fst ` set (parseEnvContent new)"
    using assms by (auto simp: calculateChanges_removed has_property_def)
  have dn: "distinct (map fst (parseEnvContent new))" by (rule parseEnvContent_distinct)
  have "k \<in> set (modified (calculateChanges old new))
          \<longleftrightarrow> (\<exists>v. map_of (parseEnvContent new) k = Some v
                 \<and> k \<in> fst ` set (parseEnvContent old)
                 \<and> get_property (parseEnvContent old) k \<noteq> Str v)"
    using assms dn by (auto simp: calculateChanges_modified has_property_def)
  also have "\<dots> \<longleftrightarrow> (\<exists>v v'. map_of (parseEnvContent new) k = Some v
                 \<and> map_of (parseEnvContent old) k = Some v' \<and> v \<noteq> v')"
    by (cases "map_of (parseEnvContent old) k")
       (auto simp: get_property_def own_key_iff)
  finally show "k \<in> set (modified (calculateChanges old new))
           \<longleftrightarrow> (\<exists>v v'. map_of (parseEnvContent new) k = Some v
                 \<and> map_of (parseEnvContent old) k = Some v' \<and> v \<noteq> v')" .
qed

text \<open>
  C6. The classification of the specification fails for a key whose name is inherited
  from \<open>Object.prototype\<close>, because the code tests presence with the \<open>in\<close> operator: a key
  \<open>constructor\<close> that only the new content has is listed as modified and not as added,
  and one that only the old content has is not listed as removed (the diff is empty).
\<close>

theorem diff_of_inherited_name:
  "calculateChanges '''' ''constructor=1''
     = \<lparr> ctype = Type_added, added = [], modified = [''constructor''], removed = [] \<rparr>
   \<and> calculateChanges ''constructor=1'' ''''
     = \<lparr> ctype = Type_added, added = [], modified = [], removed = [] \<rparr>"
  by code_simp

theorem diff_of_inherited_name_witness:
  "added (calculateChanges '''' ''constructor=1'') = []
   \<and> modified (calculateChanges '''' ''constructor=1'') = [''constructor'']
   \<and> removed (calculateChanges ''constructor=1'' '''') = []"
  using diff_of_inherited_name by simp

section \<open>The detector's Baseline\<close>

lemma watch_unreadable:
  "readFileSync f = Inl e \<Longrightarrow>
   fst (watch f new_FileWatcher) = \<lparr> watcher = True, debounceTimer = None, lastContent = [] \<rparr>"
  by (simp add: watch_def new_FileWatcher_def)

lemma parseEnvContent_empty: "parseEnvContent [] = []"
  by (simp add: parseEnvContent_def content_line_def trim_empty)

text \<open>
  With the empty Baseline nothing is removed, and every key of the file is added unless
  its name is inherited from \<open>Object.prototype\<close>.
\<close>

lemma changes_from_empty_baseline:
  "removed (calculateChanges [] content) = []"
  "set (added (calculateChanges [] content))
     = {k \<in> fst ` set (parseEnvContent content). k \<notin> set object_prototype_keys}"
proof -
  show "removed (calculateChanges [] content) = []"
    by (simp add: calculateChanges_def Let_def parseEnvContent_empty own_keys_def own_entries_def)
  show "set (added (calculateChanges [] content))
     = {k \<in> fst ` set (parseEnvContent content). k \<notin> set object_prototype_keys}"
    by (simp add: calculateChanges_added parseEnvContent_empty has_property_def)
qed

text \<open>
  C9. When the first read fails, \<open>watch\<close> sets the Baseline to the empty string and goes
  on to watch. The next change then reports the keys of the file as added, except a key
  whose name is inherited from \<open>Object.prototype\<close>: \<open>constructor\<close> is reported as
  modified (the same test with \<open>in\<close> as in C6).
\<close>

theorem watch_unreadable_then_inherited_name:
  "fst (watch Absent new_FileWatcher)
     = \<lparr> watcher = True, debounceTimer = None, lastContent = [] \<rparr>
   \<and> snd (processFileChange (File ''constructor=1'') (fst (watch Absent new_FileWatcher)))
     = [Env_changed \<lparr> ctype = Type_added, added = [], modified = [''constructor''],
                       removed = [] \<rparr>]"
  by code_simp

theorem watch_unreadable_then_inherited_name_witness:
  "lastContent (fst (watch Absent new_FileWatcher)) = []
   \<and> watcher (fst (watch Absent new_FileWatcher))
   \<and> snd (processFileChange (File ''constructor=1'') (fst (watch Absent new_FileWatcher)))
     = [Env_changed \<lparr> ctype = Type_added, added = [], modified = [''constructor''],
                       removed = [] \<rparr>]"
proof -
  note t = watch_unreadable_then_inherited_name
  have a: "lastContent (fst (watch Absent new_FileWatcher)) = []"
    unfolding t [THEN conjunct1] by simp
  have b: "watcher (fst (watch Absent new_FileWatcher))"
    unfolding t [THEN conjunct1] by simp
  show ?thesis using a b t [THEN conjunct2] by (intro conjI)
qed

lemma processFileChange_File:
  "processFileChange (File content) w =
     (if has_changes (calculateChanges (lastContent w) content)
      then (w\<lparr> lastContent := content \<rparr>, [Env_changed (calculateChanges (lastContent w) content)])
      else (w, []))"
  by (simp add: processFileChange_def readFileSync_def has_changes_def Let_def)

lemma processFileChange_again:
  "snd (processFileChange (File content) (fst (processFileChange (File content) w))) = []"
  by (simp add: processFileChange_File calculateChanges_same has_changes_def)

text \<open>
  C1 as the code has it. A poll tick leaves the \<open>FileWatcher\<close>, and so its Baseline,
  as it was. When the detector next processes the file the poller wrote, it emits one
  change event if the diff between its Baseline and the written content is not empty,
  and takes the written content as its Baseline; processing the same content again
  emits nothing.
\<close>

theorem pull_write_is_reported_once:
  assumes "disk (poll_tick c pn answer answer' d) = File content"
  shows "fw (poll_tick c pn answer answer' d) = fw d
       \<and> processFileChange (File content) (fw d) =
           (if has_changes (calculateChanges (lastContent (fw d)) content)
            then ((fw d)\<lparr> lastContent := content \<rparr>,
                  [Env_changed (calculateChanges (lastContent (fw d)) content)])
            else (fw d, []))
       \<and> snd (processFileChange (File content) (fst (processFileChange (File content) (fw d))))
           = []"
  using assms
  by (simp add: poll_tick_def processFileChange_File calculateChanges_same has_changes_def)


text \<open>
  C1 as stated fails. The detector watches a file holding \<open>A=1\<close>; a poll tick finds
  \<open>A=1, B=2\<close> on the remote side and writes it; the Baseline is still the old content,
  and when the debounce timer set by chokidar's notification of that write fires, the
  detector emits a change event for \<open>B\<close>.
\<close>

theorem pull_write_feeds_back:
  "disk (poll_tick mirror_crypto ''p'' (remote_with [(''A'', ''1''), (''B'', ''2'')])
            (remote_with [(''A'', ''1''), (''B'', ''2'')]) (started_detector (File ''A=1\<newline>'')))
     = File ''A=1\<newline>B=2\<newline>''
   \<and> lastContent (fw (poll_tick mirror_crypto ''p'' (remote_with [(''A'', ''1''), (''B'', ''2'')])
            (remote_with [(''A'', ''1''), (''B'', ''2'')]) (started_detector (File ''A=1\<newline>''))))
     = ''A=1\<newline>''
   \<and> emitted (fire_due 3000 (run_detector
        (poll_tick mirror_crypto ''p'' (remote_with [(''A'', ''1''), (''B'', ''2'')])
            (remote_with [(''A'', ''1''), (''B'', ''2'')]) (started_detector (File ''A=1\<newline>'')))
        [(1000, Change_notified)]))
     = [Env_changed \<lparr> ctype = Type_modified, added = [''B''], modified = [], removed = [] \<rparr>]"
  by code_simp
theorem pull_write_is_reported_once_witness:
  "disk (poll_tick mirror_crypto ''p'' (remote_with [(''A'', ''1''), (''B'', ''2'')])
            (remote_with [(''A'', ''1''), (''B'', ''2'')]) (started_detector (File ''A=1\<newline>'')))
     = File ''A=1\<newline>B=2\<newline>''
   \<and> fw (poll_tick mirror_crypto ''p'' (remote_with [(''A'', ''1''), (''B'', ''2'')])
            (remote_with [(''A'', ''1''), (''B'', ''2'')]) (started_detector (File ''A=1\<newline>'')))
     = fw (started_detector (File ''A=1\<newline>''))
   \<and> snd (processFileChange (File ''A=1\<newline>B=2\<newline>'')
            (fw (started_detector (File ''A=1\<newline>''))))
     = [Env_changed \<lparr> ctype = Type_modified, added = [''B''], modified = [], removed = [] \<rparr>]
   \<and> snd (processFileChange (File ''A=1\<newline>B=2\<newline>'')
        (fst (processFileChange (File ''A=1\<newline>B=2\<newline>'')
               (fw (started_detector (File ''A=1\<newline>'')))))) = []"
proof -
  have h: "disk (poll_tick mirror_crypto ''p'' (remote_with [(''A'', ''1''), (''B'', ''2'')])
            (remote_with [(''A'', ''1''), (''B'', ''2'')]) (started_detector (File ''A=1\<newline>'')))
     = File ''A=1\<newline>B=2\<newline>''"
    by code_simp
  have c: "calculateChanges (lastContent (fw (started_detector (File ''A=1\<newline>''))))
             ''A=1\<newline>B=2\<newline>''
     = \<lparr> ctype = Type_modified, added = [''B''], modified = [], removed = [] \<rparr>"
    by code_simp
  note t = pull_write_is_reported_once [OF h]
  have s: "snd (processFileChange (File ''A=1\<newline>B=2\<newline>'')
            (fw (started_detector (File ''A=1\<newline>''))))
     = [Env_changed \<lparr> ctype = Type_modified, added = [''B''], modified = [], removed = [] \<rparr>]"
    unfolding t [THEN conjunct2, THEN conjunct1] by (simp add: c has_changes_def)
  show ?thesis
    using h t [THEN conjunct1] s t [THEN conjunct2, THEN conjunct2] by (intro conjI)
qed

section \<open>Writing the file and reading it back\<close>

lemma split_on_nonempty: "split_on c s \<noteq> []"
  by (induction s) simp_all

lemma split_on_nomatch: "c \<notin> set s \<Longrightarrow> split_on c s = [s]"
  by (induction s) auto

lemma split_on_append: "c \<notin> set l \<Longrightarrow> split_on c (l @ c # rest) = l # split_on c rest"
  by (induction l) auto

lemma join_Cons: "join sep (l # ls) = (if ls = [] then l else l @ sep @ join sep ls)"
  by (cases ls) simp_all

lemma join_split: "join [c] (split_on c s) = s"
proof (induction s)
  case Nil
  show ?case by simp
next
  case (Cons x xs)
  obtain h t where ht: "split_on c xs = h # t"
    using split_on_nonempty [of c xs] by (cases "split_on c xs") auto
  with Cons show ?case by (auto simp: join_Cons)
qed

lemma split_join:
  "ls \<noteq> [] \<Longrightarrow> \<forall>l \<in> set ls. c \<notin> set l \<Longrightarrow> split_on c (join [c] ls) = ls"
proof (induction ls)
  case Nil
  then show ?case by simp
next
  case (Cons l ls)
  show ?case
  proof (cases "ls = []")
    case True
    with Cons.prems show ?thesis by (simp add: split_on_nomatch)
  next
    case False
    with Cons show ?thesis by (simp add: join_Cons split_on_append)
  qed
qed

lemma join_snoc_empty: "ls \<noteq> [] \<Longrightarrow> join [c] (ls @ [[]]) = join [c] ls @ [c]"
  by (induction ls) (auto simp: join_Cons)

lemma join_lines: "ls \<noteq> [] \<Longrightarrow> join [c] ls @ [c] = concat (map (\<lambda>l. l @ [c]) ls)"
  by (induction ls) (auto simp: join_Cons)

lemma env_text_lines:
  "own_entries vars \<noteq> [] \<Longrightarrow>
     env_text vars = concat (map (\<lambda>(k, v). k @ ''='' @ v @ ''\<newline>'') (own_entries vars))"
  by (simp add: env_text_def join_lines comp_def split_def)

lemma trim_plain_value: "plain_value v \<Longrightarrow> trim v = v"
  by (simp add: plain_value_def trim_id)

lemma strip_quotes_plain_value: "plain_value v \<Longrightarrow> strip_quotes v = v"
  by (cases v) (auto simp: plain_value_def strip_quotes_def Let_def)

lemma env_line_plain:
  assumes "plain_key k" and "plain_value v"
  shows "env_line vars (k @ CHR ''='' # v) = obj_set vars k v"
proof -
  let ?line = "k @ CHR ''='' # v"
  from assms(1) have k: "k \<noteq> []" "\<not> space_at_start k" "\<not> space_at_end k"
    "CHR ''='' \<notin> set k" "hd k \<noteq> CHR ''#''"
    by (simp_all add: plain_key_def)
  from assms(2) have v: "\<not> space_at_end v" by (simp add: plain_value_def)
  have a: "\<not> space_at_start ?line"
    using k(2) starts_sep [OF white_space_no_eq] by (simp add: space_at_start_def)
  have "rev ?line = rev v @ CHR ''='' # rev k" by simp
  then have b: "\<not> space_at_end ?line"
    using v starts_sep [OF white_space_rev_no_eq, of "rev v" "rev k"]
    by (simp add: space_at_end_def)
  have t: "trim ?line = ?line" using a b by (rule trim_id)
  have s: "split_on (CHR ''='') ?line = k # split_on (CHR ''='') v"
    using k(4) by (rule split_on_append)
  have n: "\<not> startsWith ?line (CHR ''#'')"
    using k by (cases k) (simp_all add: startsWith_def)
  have tk: "trim k = k" using k(2,3) by (rule trim_id)
  show ?thesis
    using k(1)
    by (simp add: env_line_def t s n tk join_split trim_plain_value [OF assms(2)]
        strip_quotes_plain_value [OF assms(2)] split_on_nonempty Let_def)
qed

lemma env_line_blank: "trim line = [] \<Longrightarrow> env_line vars line = vars"
  by (simp add: env_line_def)

lemma env_line_comment: "startsWith (trim line) (CHR ''#'') \<Longrightarrow> env_line vars line = vars"
  by (simp add: env_line_def)

lemma put_own_fresh: "k \<notin> fst ` set obj \<Longrightarrow> put_own k v obj = obj @ [(k, v)]"
  by (induction obj) auto

lemma foldl_env_line_plain:
  assumes "list_all (\<lambda>(k, v). plain_key k \<and> plain_value v) es"
    and "distinct (map fst (acc @ es))"
  shows "foldl env_line acc (map (\<lambda>(k, v). k @ CHR ''='' # v) es) = acc @ es"
  using assms
proof (induction es arbitrary: acc)
  case Nil
  show ?case by simp
next
  case (Cons e es)
  obtain k v where e: "e = (k, v)" by (cases e)
  from Cons.prems(1) e have p: "plain_key k" "plain_value v"
    and r: "list_all (\<lambda>(k, v). plain_key k \<and> plain_value v) es" by simp_all
  from Cons.prems(2) e have f: "k \<notin> fst ` set acc" by auto
  from p(1) have "k \<noteq> ''__proto__''" by (simp add: plain_key_def)
  then have o: "obj_set acc k v = acc @ [(k, v)]"
    using f by (simp add: obj_set_def put_own_fresh)
  from Cons.prems(2) e have d: "distinct (map fst ((acc @ [(k, v)]) @ es))" by simp
  from Cons.IH [OF r d] show ?case
    using e by (simp add: env_line_plain [OF p] o)
qed

lemma distinct_own_entries:
  assumes "distinct (map fst obj)"
  shows "distinct (map fst (own_entries obj))"
proof -
  from assms have d: "distinct obj" and i: "inj_on fst (set obj)"
    by (simp_all add: distinct_map)
  have "distinct (own_entries obj)"
    using d by (auto simp: own_entries_def)
  with i show ?thesis by (simp add: distinct_map set_own_entries)
qed

lemma map_of_own_entries:
  assumes "distinct (map fst obj)"
  shows "map_of (own_entries obj) = map_of obj"
  using map_of_inject_set [OF distinct_own_entries [OF assms] assms]
  by (simp add: set_own_entries)

lemma plain_own_entries:
  "plain_vars vars \<Longrightarrow> list_all (\<lambda>(k, v). plain_key k \<and> plain_value v) (own_entries vars)"
  by (simp add: plain_vars_def list_all_iff set_own_entries)

lemma parse_env_text_lines:
  assumes "\<forall>l \<in> set ls. CHR 0x0A \<notin> set l"
  shows "parse_env_text (join [CHR 0x0A] ls @ [CHR 0x0A]) = foldl env_line [] ls"
proof (cases "ls = []")
  case True
  then show ?thesis
    by (simp add: parse_env_text_def env_line_def trim_empty)
next
  case False
  then have "join [CHR 0x0A] ls @ [CHR 0x0A] = join [CHR 0x0A] (ls @ [[]])"
    by (simp add: join_snoc_empty)
  moreover have "split_on (CHR 0x0A) (join [CHR 0x0A] (ls @ [[]])) = ls @ [[]]"
    using assms by (intro split_join) auto
  ultimately show ?thesis
    by (simp add: parse_env_text_def env_line_blank trim_empty)
qed

lemma parse_env_text_env_text:
  assumes "plain_vars vars"
  shows "parse_env_text (env_text vars) = own_entries vars"
proof -
  let ?es = "own_entries vars"
  let ?ls = "map (\<lambda>(k, v). k @ CHR ''='' # v) ?es"
  have p: "list_all (\<lambda>(k, v). plain_key k \<and> plain_value v) ?es"
    using assms by (rule plain_own_entries)
  have d: "distinct (map fst ([] @ ?es))"
    using assms by (simp add: plain_vars_def distinct_own_entries)
  have n: "\<forall>l \<in> set ?ls. CHR 0x0A \<notin> set l"
    using p by (auto simp: list_all_iff plain_key_def plain_value_def)
  have "env_text vars = join [CHR 0x0A] ?ls @ [CHR 0x0A]"
    by (simp add: env_text_def)
  then show ?thesis
    using foldl_env_line_plain [OF p d] by (simp add: parse_env_text_lines [OF n])
qed

text \<open>
  C8 as the code has it. For variables whose keys and values are plain (a key is not
  empty, has no white space at either end, no \<open>=\<close> and no newline, does not start with
  \<open>#\<close> and is not \<open>__proto__\<close>; a value has no newline, no white space and no quote
  character at either end; white space is what \<open>String.prototype.trim\<close> removes, the
  Unicode spaces, the line terminators and the byte order mark among it), and a file that
  can be written, \<open>writeEnvFile\<close> writes one \<open>key=value\<close> line each and \<open>parseEnvFile\<close> reads
  the same variables back: the same key-value map, in the order in which the runtime
  enumerates them. The parser skips a line that is blank or starts with \<open>#\<close> after
  trimming, and a line \<open>key=value\<close> is split at its first \<open>=\<close>, so a plain value may hold
  further \<open>=\<close> signs.
\<close>

theorem plain_vars_round_trip:
  assumes "plain_vars vars" and "writable" and "f \<noteq> Locked"
  shows "writeEnvFile writable f vars = Inr (File (env_text vars))
       \<and> env_text vars =
           (if own_entries vars = [] then ''\<newline>''
            else concat (map (\<lambda>(k, v). k @ ''='' @ v @ ''\<newline>'') (own_entries vars)))
       \<and> parseEnvFile (File (env_text vars)) = Inr (own_entries vars)
       \<and> map_of (own_entries vars) = map_of vars
       \<and> (trim line = [] \<or> startsWith (trim line) (CHR ''#'') \<longrightarrow> env_line acc line = acc)
       \<and> (plain_key k \<and> plain_value v \<longrightarrow> env_line acc (k @ CHR ''='' # v) = obj_set acc k v)"
proof -
  have "writeEnvFile writable f vars = Inr (File (env_text vars))"
    using assms(2,3) by (simp add: writeEnvFile_def writeFileSync_def)
  moreover have "env_text vars =
           (if own_entries vars = [] then ''\<newline>''
            else concat (map (\<lambda>(k, v). k @ ''='' @ v @ ''\<newline>'') (own_entries vars)))"
    by (simp add: env_text_lines) (simp add: env_text_def)
  moreover have "parseEnvFile (File (env_text vars)) = Inr (own_entries vars)"
    by (simp add: parseEnvFile_def existsSync_def readFileSync_def
        parse_env_text_env_text [OF assms(1)])
  moreover have "map_of (own_entries vars) = map_of vars"
    using assms(1) by (simp add: plain_vars_def map_of_own_entries)
  moreover have "trim line = [] \<or> startsWith (trim line) (CHR ''#'') \<longrightarrow> env_line acc line = acc"
    by (auto simp: env_line_blank env_line_comment)
  moreover have "plain_key k \<and> plain_value v \<longrightarrow> env_line acc (k @ CHR ''='' # v) = obj_set acc k v"
    by (simp add: env_line_plain)
  ultimately show ?thesis by blast
qed

text \<open>
  C8 as stated fails: a value with a leading space is read back without the space, and a
  value in double quotes is read back without the quotes.
\<close>

theorem written_value_is_not_read_back:
  "writeEnvFile True Absent [(''A'', '' 1'')] = Inr (File ''A= 1\<newline>'')
   \<and> parseEnvFile (File ''A= 1\<newline>'') = Inr [(''A'', ''1'')]
   \<and> writeEnvFile True Absent [(''Q'', [CHR 0x22, CHR ''x'', CHR 0x22])]
       = Inr (File ([CHR ''Q'', CHR ''='', CHR 0x22, CHR ''x'', CHR 0x22, CHR 0x0A]))
   \<and> parseEnvFile (File ([CHR ''Q'', CHR ''='', CHR 0x22, CHR ''x'', CHR 0x22, CHR 0x0A]))
       = Inr [(''Q'', ''x'')]"
  by code_simp

theorem plain_vars_round_trip_witness:
  "plain_vars [(''URL'', ''http://h/?a=b''), (''10'', ''ten''), (''2'', [])]
   \<and> writeEnvFile True Absent [(''URL'', ''http://h/?a=b''), (''10'', ''ten''), (''2'', [])]
       = Inr (File ''2=\<newline>10=ten\<newline>URL=http://h/?a=b\<newline>'')
   \<and> parseEnvFile (File ''2=\<newline>10=ten\<newline>URL=http://h/?a=b\<newline>'')
       = Inr [(''2'', []), (''10'', ''ten''), (''URL'', ''http://h/?a=b'')]
   \<and> env_line [] '' # comment'' = []"
proof -
  let ?v = "[(''URL'', ''http://h/?a=b''), (''10'', ''ten''), (''2'', [])]"
  have p: "plain_vars ?v" by code_simp
  have a: "Absent \<noteq> Locked" by simp
  have t: "env_text ?v = ''2=\<newline>10=ten\<newline>URL=http://h/?a=b\<newline>''" by code_simp
  have o: "own_entries ?v = [(''2'', []), (''10'', ''ten''), (''URL'', ''http://h/?a=b'')]"
    by code_simp
  have c: "startsWith (trim '' # comment'') (CHR ''#'')" by code_simp
  note r = plain_vars_round_trip [OF p TrueI a, of "'' # comment''" "[]", unfolded t o]
  have e: "env_line [] '' # comment'' = []"
    using r [THEN conjunct2, THEN conjunct2, THEN conjunct2, THEN conjunct2, THEN conjunct1] c
    by blast
  show ?thesis
    using p r [THEN conjunct1] r [THEN conjunct2, THEN conjunct2, THEN conjunct1] e
    by (intro conjI)
qed

section \<open>Pulling and polling\<close>

lemma entry_differs:
  "(\<not> has_property localVars k \<or> get_property localVars k \<noteq> Str v)
     \<longleftrightarrow> map_of localVars k \<noteq> Some v"
  by (cases "map_of localVars k") (auto simp: get_property_def has_property_def own_key_iff)

lemma entry_differs_imp:
  "(has_property localVars k \<longrightarrow> get_property localVars k \<noteq> Str v)
     \<longleftrightarrow> map_of localVars k \<noteq> Some v"
  using entry_differs [of localVars k v] by blast


lemma hasChanges_iff:
  assumes "distinct (map fst remoteVars)"
  shows "hasChanges localVars remoteVars
     \<longleftrightarrow> \<not> (\<forall>(k, v) \<in> set remoteVars. map_of localVars k = Some v)"
proof -
  have "\<And>p. p \<in> set remoteVars \<Longrightarrow> get_property remoteVars (fst p) = Str (snd p)"
    using assms by (simp add: get_property_own)
  then have "hasChanges localVars remoteVars
          \<longleftrightarrow> (\<exists>p \<in> set remoteVars. \<not> has_property localVars (fst p)
                 \<or> get_property localVars (fst p) \<noteq> Str (snd p))"
    by (simp add: hasChanges_def list_ex_iff set_own_keys)
  then show ?thesis by (simp add: entry_differs_imp split_def)
qed

lemma decrypt_each_distinct:
  "decrypt_each c pn vars items = Inr r \<Longrightarrow> distinct (map fst vars) \<Longrightarrow> distinct (map fst r)"
proof (induction items arbitrary: vars)
  case Nil
  then show ?case by simp
next
  case (Cons item rest)
  then show ?case
    by (cases "decrypt_item c pn item")
       (auto simp: decrypt_each_Cons obj_set_distinct simp del: decrypt_each.simps)
qed

lemma decryptVariables_distinct:
  "decryptVariables c pn records = Inr r \<Longrightarrow> distinct (map fst r)"
  using decrypt_each_distinct [of c pn "[]" records r] by (simp add: decryptVariables_def)

lemma write_after_parse:
  "parseEnvFile f = Inr localVars \<Longrightarrow>
     writeFileSync writable f t = (if writable then Inr (File t) else Inl FileIOError)"
  by (cases f) (simp_all add: parseEnvFile_def writeFileSync_def existsSync_def readFileSync_def)

lemma changed_env_text:
  assumes "\<not> (\<forall>(k, v) \<in> set remoteVars. map_of localVars k = Some v)"
  shows "env_text remoteVars
           = concat (map (\<lambda>(k, v). k @ ''='' @ v @ ''\<newline>'') (own_entries remoteVars))"
proof -
  from assms have "set (own_entries remoteVars) \<noteq> {}"
    by (auto simp: set_own_entries)
  then have "own_entries remoteVars \<noteq> []" by auto
  then show ?thesis by (simp add: env_text_lines)
qed

lemma snd_performPull_env_text:
  "snd (performPull c pn answer writable f) =
     (case answer of
        Inl e \<Rightarrow> f
      | Inr response \<Rightarrow>
          (case data response of
             None \<Rightarrow> f
           | Some records \<Rightarrow>
               if \<not> success response then f
               else
                 (case decryptVariables c pn records of
                    Inl e \<Rightarrow> f
                  | Inr remoteVars \<Rightarrow>
                      (case parseEnvFile f of
                         Inl e \<Rightarrow> f
                       | Inr localVars \<Rightarrow>
                           if (\<forall>(k, v) \<in> set remoteVars. map_of localVars k = Some v)
                              \<or> \<not> writable
                           then f
                           else File (env_text remoteVars)))))"
  by (auto simp: performPull_def hasChanges_iff decryptVariables_distinct write_after_parse
      split: sum.splits option.splits)

lemma snd_performPull:
  "snd (performPull c pn answer writable f) =
     (case answer of
        Inl e \<Rightarrow> f
      | Inr response \<Rightarrow>
          (case data response of
             None \<Rightarrow> f
           | Some records \<Rightarrow>
               if \<not> success response then f
               else
                 (case decryptVariables c pn records of
                    Inl e \<Rightarrow> f
                  | Inr remoteVars \<Rightarrow>
                      (case parseEnvFile f of
                         Inl e \<Rightarrow> f
                       | Inr localVars \<Rightarrow>
                           if (\<forall>(k, v) \<in> set remoteVars. map_of localVars k = Some v)
                              \<or> \<not> writable
                           then f
                           else File (concat (map (\<lambda>(k, v). k @ ''='' @ v @ ''\<newline>'')
                                                (own_entries remoteVars)))))))"
  unfolding snd_performPull_env_text
  by (auto simp: changed_env_text split: sum.splits option.splits)

lemma read_back_lines:
  assumes "plain_vars vars"
  shows "parseEnvFile (File (concat (map (\<lambda>(k, v). k @ ''='' @ v @ ''\<newline>'')
                                     (own_entries vars))))
           = Inr (own_entries vars)"
proof (cases "own_entries vars = []")
  case True
  then show ?thesis
    by (simp add: parseEnvFile_def existsSync_def readFileSync_def parse_env_text_def
        env_line_blank trim_empty)
next
  case False
  then have "concat (map (\<lambda>(k, v). k @ ''='' @ v @ ''\<newline>'') (own_entries vars))
               = env_text vars"
    by (simp add: env_text_lines)
  then show ?thesis
    by (simp add: parseEnvFile_def existsSync_def readFileSync_def
        parse_env_text_env_text [OF assms])
qed

text \<open>
  C10 as the code has it. \<open>performPull\<close> leaves the local file as it is when the call
  fails, when the answer is unsuccessful or carries no data, when a record does not
  decrypt, when the local file cannot be read, when every remote variable is in the
  local file with the same value, whatever else the local file holds, and when the file
  cannot be written. Otherwise it replaces the content by one line \<open>key=value\<close> for each
  remote variable, the key and the value as they are, in the order in which the runtime
  enumerates them. \<open>parseEnvFile\<close> reads exactly these variables back from the lines when
  the keys and the values are plain.
\<close>

theorem performPull_file:
  "snd (performPull c pn answer writable f) =
     (case answer of
        Inl e \<Rightarrow> f
      | Inr response \<Rightarrow>
          (case data response of
             None \<Rightarrow> f
           | Some records \<Rightarrow>
               if \<not> success response then f
               else
                 (case decryptVariables c pn records of
                    Inl e \<Rightarrow> f
                  | Inr remoteVars \<Rightarrow>
                      (case parseEnvFile f of
                         Inl e \<Rightarrow> f
                       | Inr localVars \<Rightarrow>
                           if (\<forall>(k, v) \<in> set remoteVars. map_of localVars k = Some v)
                              \<or> \<not> writable
                           then f
                           else File (concat (map (\<lambda>(k, v). k @ ''='' @ v @ ''\<newline>'')
                                                (own_entries remoteVars)))))))
   \<and> (plain_vars vars \<longrightarrow>
        parseEnvFile (File (concat (map (\<lambda>(k, v). k @ ''='' @ v @ ''\<newline>'')
                                      (own_entries vars))))
          = Inr (own_entries vars)
        \<and> map_of (own_entries vars) = map_of vars)"
  using snd_performPull [of c pn answer writable f] read_back_lines [of vars]
  by (simp add: plain_vars_def map_of_own_entries)

text \<open>
  C10 as stated fails: what is written need not hold the remote variables. The remote
  snapshot has one variable \<open>A\<close>, whose value is \<open>1\<close>, a newline and \<open>B=2\<close>; the file
  written has two lines, and holds \<open>A\<close> with the value \<open>1\<close> and a variable \<open>B\<close> that the
  remote snapshot does not have. A remote value in double quotes is in the file without
  them as \<open>parseEnvFile\<close> reads it.
\<close>

theorem rewrite_holds_other_variables:
  "decryptVariables mirror_crypto ''p'' [sample_record ''A'' ''1\<newline>B=2'']
     = Inr [(''A'', ''1\<newline>B=2'')]
   \<and> snd (performPull mirror_crypto ''p'' (remote_with [(''A'', ''1\<newline>B=2'')]) True Absent)
     = File ''A=1\<newline>B=2\<newline>''
   \<and> parseEnvFile (File ''A=1\<newline>B=2\<newline>'') = Inr [(''A'', ''1''), (''B'', ''2'')]
   \<and> snd (performPull mirror_crypto ''p'' (remote_with [(''Q'', [CHR 0x22, CHR ''x'', CHR 0x22])])
            True Absent)
     = File [CHR ''Q'', CHR ''='', CHR 0x22, CHR ''x'', CHR 0x22, CHR 0x0A]
   \<and> parseEnvFile (File [CHR ''Q'', CHR ''='', CHR 0x22, CHR ''x'', CHR 0x22, CHR 0x0A])
     = Inr [(''Q'', ''x'')]"
  by code_simp

theorem performPull_file_witness:
  "snd (performPull mirror_crypto ''p'' (remote_with [(''A'', ''1'')]) True
          (File ''A=1\<newline>B=2\<newline>'')) = File ''A=1\<newline>B=2\<newline>''
   \<and> snd (performPull mirror_crypto ''p'' (remote_with [(''A'', ''1''), (''B'', ''2'')]) True
          (File ''A=1\<newline>'')) = File ''A=1\<newline>B=2\<newline>''
   \<and> snd (performPull mirror_crypto ''p'' (remote_with [(''X'', ''v=w''), (''2'', ''two'')]) True
          Absent) = File ''2=two\<newline>X=v=w\<newline>''
   \<and> snd (performPull mirror_crypto ''p'' (remote_with [(''A'', ''1''), (''B'', ''2'')]) False
          (File ''A=1\<newline>'')) = File ''A=1\<newline>''
   \<and> snd (performPull mirror_crypto ''p'' (Inr \<lparr> success = False, data = Some [] \<rparr>) True
          (File ''A=1\<newline>'')) = File ''A=1\<newline>''
   \<and> plain_vars [(''X'', ''v=w''), (''2'', ''two'')]
   \<and> parseEnvFile (File ''2=two\<newline>X=v=w\<newline>'') = Inr [(''2'', ''two''), (''X'', ''v=w'')]"
proof -
  note t = performPull_file [THEN conjunct1]
  have a: "snd (performPull mirror_crypto ''p'' (remote_with [(''A'', ''1'')]) True
          (File ''A=1\<newline>B=2\<newline>'')) = File ''A=1\<newline>B=2\<newline>''"
    by (subst t) code_simp
  have b: "snd (performPull mirror_crypto ''p'' (remote_with [(''A'', ''1''), (''B'', ''2'')]) True
          (File ''A=1\<newline>'')) = File ''A=1\<newline>B=2\<newline>''"
    by (subst t) code_simp
  have c: "snd (performPull mirror_crypto ''p'' (remote_with [(''X'', ''v=w''), (''2'', ''two'')])
          True Absent) = File ''2=two\<newline>X=v=w\<newline>''"
    by (subst t) code_simp
  have d: "snd (performPull mirror_crypto ''p'' (remote_with [(''A'', ''1''), (''B'', ''2'')]) False
          (File ''A=1\<newline>'')) = File ''A=1\<newline>''"
    by (subst t) code_simp
  have e: "snd (performPull mirror_crypto ''p'' (Inr \<lparr> success = False, data = Some [] \<rparr>) True
          (File ''A=1\<newline>'')) = File ''A=1\<newline>''"
    by (subst t) code_simp
  let ?v = "[(''X'', ''v=w''), (''2'', ''two'')]"
  have p: "plain_vars ?v" by code_simp
  have l: "concat (map (\<lambda>(k, v). k @ ''='' @ v @ ''\<newline>'') (own_entries ?v))
             = ''2=two\<newline>X=v=w\<newline>''"
    by code_simp
  have o: "own_entries ?v = [(''2'', ''two''), (''X'', ''v=w'')]" by code_simp
  note r = performPull_file [THEN conjunct2, of ?v, unfolded l, unfolded o]
  have g: "parseEnvFile (File ''2=two\<newline>X=v=w\<newline>'') = Inr [(''2'', ''two''), (''X'', ''v=w'')]"
    using r p by blast
  show ?thesis using a b c d e p g by (intro conjI)
qed




section \<open>Debouncing\<close>

lemma fire_due_early:
  "debounceTimer (fw d) = Some t \<Longrightarrow> now < t \<Longrightarrow> fire_due now d = d"
  by (simp add: fire_due_def)

lemma fire_due_idle: "debounceTimer (fw d) = None \<Longrightarrow> fire_due now d = d"
  by (simp add: fire_due_def)

lemma run_detector_Cons: "run_detector d (x # xs) = run_detector (deliver d x) xs"
  by (simp add: run_detector_def)

lemma run_burst:
  assumes "debounceTimer (fw d) = Some (t + debounceDelay)" and "watcher (fw d)"
    and "in_window t now stimuli"
  shows "fw (run_detector d stimuli)
           = (fw d)\<lparr> debounceTimer := Some (last_change t stimuli + debounceDelay) \<rparr>
       \<and> disk (run_detector d stimuli) = final_disk (disk d) stimuli
       \<and> emitted (run_detector d stimuli) = emitted d"
  using assms
proof (induction stimuli arbitrary: d t now)
  case Nil
  then show ?case by (simp add: run_detector_def)
next
  case (Cons x rest)
  obtain t' s where x: "x = (t', s)" by (cases x)
  show ?case
  proof (cases s)
    case Change_notified
    from Cons.prems x Change_notified
    have w: "now \<le> t'" "t' < t + debounceDelay" "in_window t' t' rest" by simp_all
    let ?d1 = "deliver d (t', Change_notified)"
    have d1: "?d1 = d\<lparr> fw := handleFileChange t' (fw d) \<rparr>"
      using Cons.prems(1,2) w(2) x Change_notified
      by (simp add: deliver_def fire_due_early)
    have "debounceTimer (fw ?d1) = Some (t' + debounceDelay)" "watcher (fw ?d1)"
      using Cons.prems(2) by (simp_all add: d1 handleFileChange_def)
    from Cons.IH [OF this w(3)] show ?thesis
      using x Change_notified by (simp add: run_detector_Cons d1 handleFileChange_def)
  next
    case (Disk_becomes f)
    from Cons.prems x Disk_becomes
    have w: "now \<le> t'" "t' < t + debounceDelay" "in_window t t' rest" by simp_all
    let ?d1 = "deliver d (t', Disk_becomes f)"
    have d1: "?d1 = d\<lparr> disk := f \<rparr>"
      using Cons.prems(1) w(2) x Disk_becomes
      by (simp add: deliver_def fire_due_early)
    have "debounceTimer (fw ?d1) = Some (t + debounceDelay)" "watcher (fw ?d1)"
      using Cons.prems(1,2) by (simp_all add: d1)
    from Cons.IH [OF this w(3)] show ?thesis
      using x Disk_becomes by (simp add: run_detector_Cons d1)
  qed
qed

lemma fire_due_now:
  assumes "debounceTimer (fw d) = Some t" and "t \<le> now"
  shows "fire_due now d =
           d\<lparr> fw := fst (processFileChange (disk d) ((fw d)\<lparr> debounceTimer := None \<rparr>)),
              emitted := emitted d
                @ snd (processFileChange (disk d) ((fw d)\<lparr> debounceTimer := None \<rparr>)) \<rparr>"
  using assms by (simp add: fire_due_def split_beta)

lemma processFileChange_unreadable:
  "readFileSync f = Inl e \<Longrightarrow> processFileChange f w = (w, [Error_event e])"
  by (simp add: processFileChange_def)

text \<open>
  C3 as the code has it. The detector is watching with no timer pending; chokidar
  reports a change at time \<open>t\<close>, and every later stimulus (a further report, or the file
  changing on disk) comes before the timer set by the latest report would fire. Once
  the clock has passed that timer, the burst has produced at most one change event:
  exactly one, carrying the diff between the Baseline before the burst and the content
  of the file when the timer fired, if that diff is not empty, and then the Baseline is
  that content; none if the diff is empty. If the file cannot be read when the timer
  fires, the one event is an error event and the Baseline stays.
\<close>

theorem burst_emits_net_change:
  assumes "watcher (fw d)" and "debounceTimer (fw d) = None"
    and "in_window t t stimuli"
    and "last_change t stimuli + debounceDelay \<le> T"
  shows "emitted (fire_due T (run_detector d ((t, Change_notified) # stimuli)))
           = emitted d @
             (case final_disk (disk d) stimuli of
                File content \<Rightarrow>
                  if has_changes (calculateChanges (lastContent (fw d)) content)
                  then [Env_changed (calculateChanges (lastContent (fw d)) content)]
                  else []
              | _ \<Rightarrow> [Error_event FileIOError])
       \<and> lastContent (fw (fire_due T (run_detector d ((t, Change_notified) # stimuli))))
           = (case final_disk (disk d) stimuli of
                File content \<Rightarrow>
                  if has_changes (calculateChanges (lastContent (fw d)) content)
                  then content else lastContent (fw d)
              | _ \<Rightarrow> lastContent (fw d))
       \<and> debounceTimer (fw (fire_due T (run_detector d ((t, Change_notified) # stimuli))))
           = None"
proof -
  let ?d1 = "deliver d (t, Change_notified)"
  have d1: "?d1 = d\<lparr> fw := handleFileChange t (fw d) \<rparr>"
    using assms(1,2) by (simp add: deliver_def fire_due_idle)
  have "debounceTimer (fw ?d1) = Some (t + debounceDelay)" "watcher (fw ?d1)"
    using assms(1) by (simp_all add: d1 handleFileChange_def)
  from run_burst [OF this assms(3)]
  have r: "fw (run_detector ?d1 stimuli)
             = (fw d)\<lparr> debounceTimer := Some (last_change t stimuli + debounceDelay) \<rparr>"
          "disk (run_detector ?d1 stimuli) = final_disk (disk d) stimuli"
          "emitted (run_detector ?d1 stimuli) = emitted d"
    by (simp_all add: d1 handleFileChange_def)
  let ?d2 = "run_detector ?d1 stimuli"
  have t: "debounceTimer (fw ?d2) = Some (last_change t stimuli + debounceDelay)"
    by (simp add: r(1))
  have w: "(fw ?d2)\<lparr> debounceTimer := None \<rparr> = fw d"
    using assms(2) by (simp add: r(1))
  have e: "fire_due T (run_detector d ((t, Change_notified) # stimuli))
             = ?d2\<lparr> fw := fst (processFileChange (final_disk (disk d) stimuli) (fw d)),
                    emitted := emitted d
                      @ snd (processFileChange (final_disk (disk d) stimuli) (fw d)) \<rparr>"
    unfolding run_detector_Cons fire_due_now [OF t assms(4)] w r(2) r(3) ..
  show ?thesis
  proof (cases "final_disk (disk d) stimuli")
    case (File content)
    then show ?thesis using assms(2) by (simp add: e processFileChange_File)
  next
    case Absent
    then show ?thesis using assms(2)
      by (simp add: e processFileChange_unreadable [of _ FileIOError] readFileSync_def)
  next
    case Locked
    then show ?thesis using assms(2)
      by (simp add: e processFileChange_unreadable [of _ FileIOError] readFileSync_def)
  qed
qed

text \<open>
  C3 as stated fails for a burst whose edits cancel out: the file goes from \<open>A=1\<close> to
  \<open>A=2\<close> and back to \<open>A=1\<close> within the window, and no change event is emitted.
\<close>

theorem burst_without_net_change:
  "emitted (fire_due 2300 (run_detector (started_detector (File ''A=1\<newline>''))
      [(0, Disk_becomes (File ''A=2\<newline>'')), (100, Change_notified),
       (200, Disk_becomes (File ''A=1\<newline>'')), (300, Change_notified)])) = []"
  by code_simp

text \<open>
  The scenario of the specification: the Baseline has \<open>A=0\<close>, the file is edited to
  \<open>A=1\<close>, \<open>A=2\<close> and \<open>A=3\<close> within 500 ms, each edit reported by chokidar; the timer
  fires 2000 ms after the last report, and exactly one event is emitted, with \<open>A\<close>
  modified.
\<close>

theorem burst_emits_net_change_witness:
  "in_window 50 50 [(200, Disk_becomes (File ''A=2\<newline>'')), (250, Change_notified),
                    (400, Disk_becomes (File ''A=3\<newline>'')), (450, Change_notified)]
   \<and> emitted (fire_due 2450 (run_detector
         ((started_detector (File ''A=0\<newline>''))\<lparr> disk := File ''A=1\<newline>'' \<rparr>)
         ((50, Change_notified) #
          [(200, Disk_becomes (File ''A=2\<newline>'')), (250, Change_notified),
           (400, Disk_becomes (File ''A=3\<newline>'')), (450, Change_notified)])))
     = [Env_changed \<lparr> ctype = Type_added, added = [], modified = [''A''], removed = [] \<rparr>]
   \<and> lastContent (fw (fire_due 2450 (run_detector
         ((started_detector (File ''A=0\<newline>''))\<lparr> disk := File ''A=1\<newline>'' \<rparr>)
         ((50, Change_notified) #
          [(200, Disk_becomes (File ''A=2\<newline>'')), (250, Change_notified),
           (400, Disk_becomes (File ''A=3\<newline>'')), (450, Change_notified)]))))
     = ''A=3\<newline>''"
proof -
  let ?d = "(started_detector (File ''A=0\<newline>''))\<lparr> disk := File ''A=1\<newline>'' \<rparr>"
  let ?rest = "[(200, Disk_becomes (File ''A=2\<newline>'')), (250, Change_notified),
                (400, Disk_becomes (File ''A=3\<newline>'')), (450, Change_notified)]"
  have h1: "watcher (fw ?d)"
    by (simp add: started_detector_def watch_def new_FileWatcher_def)
  have h2: "debounceTimer (fw ?d) = None"
    by (simp add: started_detector_def watch_def new_FileWatcher_def)
  have h3: "in_window 50 50 ?rest" by (simp add: debounceDelay_def)
  have h4: "last_change 50 ?rest + debounceDelay \<le> 2450" by (simp add: debounceDelay_def)
  have f: "final_disk (disk ?d) ?rest = File ''A=3\<newline>''" by simp
  have l: "lastContent (fw ?d) = ''A=0\<newline>''"
    by (simp add: started_detector_def watch_def new_FileWatcher_def readFileSync_def)
  have c: "calculateChanges ''A=0\<newline>'' ''A=3\<newline>''
             = \<lparr> ctype = Type_added, added = [], modified = [''A''], removed = [] \<rparr>"
    by code_simp
  have e: "emitted ?d = []" by (simp add: started_detector_def)
  note t = burst_emits_net_change [OF h1 h2 h3 h4, unfolded f l e]
  show ?thesis using h3 t by (simp add: has_changes_def c)
qed

section \<open>Operations in flight in watch mode\<close>

lemma parseEnvFile_readable: "f \<noteq> Locked \<Longrightarrow> \<exists>vars. parseEnvFile f = Inr vars"
  by (cases f) (simp_all add: parseEnvFile_def existsSync_def readFileSync_def)

lemma session_step_flags:
  "pullOnly (session_step c pn random s cb) = pullOnly s"
  "pushOnly (session_step c pn random s cb) = pushOnly s"
  by (auto simp: session_step_def push_request_def split: callback.splits sum.splits)

lemma env_changed_starts_push:
  assumes "\<not> pullOnly s" and "f \<noteq> Locked"
  shows "length (pushes_in_flight (session_step c pn random s (On_env_changed f)))
           = Suc (length (pushes_in_flight s))"
    and "checks_in_flight (session_step c pn random s (On_env_changed f)) = checks_in_flight s"
  using assms parseEnvFile_readable [of f]
  by (auto simp: session_step_def push_request_def)

lemma poll_tick_starts_check:
  assumes "\<not> pushOnly s"
  shows "checks_in_flight (session_step c pn random s Poll_tick) = Suc (checks_in_flight s)"
    and "pushes_in_flight (session_step c pn random s Poll_tick) = pushes_in_flight s"
  using assms by (simp_all add: session_step_def)

lemma run_session_Cons:
  "run_session c pn random s (cb # cbs) = run_session c pn random (session_step c pn random s cb) cbs"
  by (simp add: run_session_def)

lemma pushes_pile_up:
  assumes "\<not> pullOnly s" and "Locked \<notin> set fs"
  shows "length (pushes_in_flight (run_session c pn random s (map On_env_changed fs)))
           = length (pushes_in_flight s) + length fs"
  using assms
proof (induction fs arbitrary: s)
  case Nil
  show ?case by (simp add: run_session_def)
next
  case (Cons f fs)
  have "\<not> pullOnly (session_step c pn random s (On_env_changed f))"
    using Cons.prems(1) by (simp add: session_step_flags)
  moreover have "Locked \<notin> set fs" "f \<noteq> Locked" using Cons.prems(2) by auto
  ultimately show ?case
    using Cons.IH [of "session_step c pn random s (On_env_changed f)"] Cons.prems(1)
    by (simp add: run_session_Cons env_changed_starts_push)
qed

lemma checks_pile_up:
  assumes "\<not> pushOnly s"
  shows "checks_in_flight (run_session c pn random s (replicate n Poll_tick))
           = checks_in_flight s + n"
  using assms
proof (induction n arbitrary: s)
  case 0
  show ?case by (simp add: run_session_def)
next
  case (Suc n)
  have "\<not> pushOnly (session_step c pn random s Poll_tick)"
    using Suc.prems by (simp add: session_step_flags)
  from Suc.IH [OF this] show ?case
    using Suc.prems by (simp add: run_session_Cons poll_tick_starts_check)
qed

text \<open>
  C4 as the code has it. The session keeps no record of what is in flight. In a
  session that is neither pull-only nor push-only, every \<open>env-changed\<close> event sends
  a push request at once (provided the local file can be read), and every poll tick
  starts a remote check at once, whatever is in flight already: after \<open>n\<close> events the
  session has \<open>n\<close> more pushes in flight than before, after \<open>n\<close> ticks \<open>n\<close> more
  checks. Nothing is queued or merged; the only merging of local edits is the
  detector's debounce, before the event.
\<close>

theorem nothing_limits_operations_in_flight:
  assumes "\<not> pullOnly s" and "\<not> pushOnly s" and "Locked \<notin> set fs"
  shows "length (pushes_in_flight (run_session c pn random s (map On_env_changed fs)))
           = length (pushes_in_flight s) + length fs
       \<and> checks_in_flight (run_session c pn random s (replicate n Poll_tick))
           = checks_in_flight s + n"
  using assms by (simp add: pushes_pile_up checks_pile_up)

text \<open>
  C4 as stated fails. Two \<open>env-changed\<close> events arrive before the first push is
  answered: two push requests are in flight. Two poll ticks arrive before the first
  check has finished: two checks are in flight.
\<close>

theorem two_pushes_in_flight:
  "length (pushes_in_flight (run_session mirror_crypto ''p'' (\<lambda>n. ''0123456789abcdef'')
      (new_session False False)
      [On_env_changed (File ''A=2\<newline>''), On_env_changed (File ''A=3\<newline>'')])) = 2
   \<and> checks_in_flight (run_session mirror_crypto ''p'' (\<lambda>n. ''0123456789abcdef'')
      (new_session False False) [Poll_tick, Poll_tick]) = 2"
  by code_simp

theorem nothing_limits_operations_in_flight_witness:
  "length (pushes_in_flight (run_session mirror_crypto ''p'' (\<lambda>n. ''0123456789abcdef'')
      (new_session False False)
      (map On_env_changed [File ''A=2\<newline>'', File ''A=3\<newline>'', File ''A=4\<newline>'']))) = 3
   \<and> checks_in_flight (run_session mirror_crypto ''p'' (\<lambda>n. ''0123456789abcdef'')
      (new_session False False) (replicate 3 Poll_tick)) = 3"
proof -
  have h: "\<not> pullOnly (new_session False False)" "\<not> pushOnly (new_session False False)"
    "Locked \<notin> set [File ''A=2\<newline>'', File ''A=3\<newline>'', File ''A=4\<newline>'']"
    by (simp_all add: new_session_def)
  from nothing_limits_operations_in_flight [OF h, of mirror_crypto "''p''"
      "\<lambda>n. ''0123456789abcdef''" 3]
  show ?thesis by (simp add: new_session_def)
qed

end
